theory Spec2Isabelle
  imports Complex_Main "HOL-Library.Word"
begin

section \<open>JavaScript numbers\<close>

text \<open>
  The amount handling of \<^verbatim>\<open>BridgeModal.tsx\<close> computes with JavaScript numbers: IEEE
  754 doubles. A number is \<^verbatim>\<open>NaN\<close>, one of the two infinities, or a finite value,
  which is kept as the rational it denotes. Zero has no sign here; no comparison of
  the source tells the two zeros apart.
\<close>

datatype number = NaN | NegInfinity | Finite rat | Infinity

fun isNaN :: "number \<Rightarrow> bool" where
  "isNaN NaN = True"
| "isNaN _ = False"

text \<open>The relational operators: every comparison with \<^verbatim>\<open>NaN\<close> is false.\<close>

fun num_less :: "number \<Rightarrow> number \<Rightarrow> bool" where
  "num_less NaN _ = False"
| "num_less _ NaN = False"
| "num_less NegInfinity NegInfinity = False"
| "num_less NegInfinity _ = True"
| "num_less (Finite a) NegInfinity = False"
| "num_less (Finite a) (Finite b) = (a < b)"
| "num_less (Finite a) Infinity = True"
| "num_less Infinity _ = False"

definition num_greater :: "number \<Rightarrow> number \<Rightarrow> bool" where
  "num_greater a b = num_less b a"

definition num_less_eq :: "number \<Rightarrow> number \<Rightarrow> bool" where
  "num_less_eq a b = (\<not> isNaN a \<and> \<not> isNaN b \<and> \<not> num_less b a)"

fun num_sign :: "number \<Rightarrow> int" where
  "num_sign NaN = 0"
| "num_sign NegInfinity = - 1"
| "num_sign (Finite a) = (if a < 0 then - 1 else if a = 0 then 0 else 1)"
| "num_sign Infinity = 1"

subsection \<open>Rounding to a double\<close>

text \<open>
  Every operation gives the double nearest to the exact result, ties to the even
  significand. For a positive rational \<open>a\<close>, \<open>floorLog2 a\<close> is the \<open>e\<close> with
  \<open>2 ^ e \<le> a < 2 ^ (e + 1)\<close>: for \<open>a \<ge> 1\<close> one less than the bit length of
  \<open>\<lfloor>a\<rfloor>\<close>, and below 1 the negated least \<open>k\<close> with \<open>1 / a \<le> 2 ^ k\<close>, which is
  the bit length of \<open>\<lceil>1 / a\<rceil> - 1\<close>. The doubles near \<open>a\<close> are the multiples of \<open>2 ^ u\<close> with
  \<open>u = max (e - 52) (- 1074)\<close>: 53 bits of significand, and the spacing of the
  subnormal numbers at the bottom. A result that rounds to \<open>2 ^ 1024\<close> or more
  overflows to an infinity; one that rounds to no multiple but zero underflows to
  zero.
\<close>

fun bitLength :: "nat \<Rightarrow> nat" where
  "bitLength n = (if n = 0 then 0 else Suc (bitLength (n div 2)))"

declare bitLength.simps [simp del]

definition pow2 :: "int \<Rightarrow> rat" where
  "pow2 k = (if 0 \<le> k then 2 ^ nat k else 1 / 2 ^ nat (- k))"

definition floorLog2 :: "rat \<Rightarrow> int" where
  "floorLog2 a =
     (if 1 \<le> a then int (bitLength (nat \<lfloor>a\<rfloor>)) - 1
      else - int (bitLength (nat (\<lceil>1 / a\<rceil> - 1))))"

definition roundHalfEven :: "rat \<Rightarrow> int" where
  "roundHalfEven x =
     (let f = \<lfloor>x\<rfloor>; r = x - of_int f
      in if r < 1 / 2 then f else if 1 / 2 < r then f + 1 else if even f then f else f + 1)"

definition roundDouble :: "rat \<Rightarrow> number" where
  "roundDouble q =
     (if q = 0 then Finite 0
      else
        (let a = \<bar>q\<bar>;
             u = max (floorLog2 a - 52) (- 1074);
             r = of_int (roundHalfEven (a / pow2 u)) * pow2 u
         in if 2 ^ 1024 \<le> r then (if q < 0 then NegInfinity else Infinity)
            else Finite (if q < 0 then - r else r)))"

text \<open>The operator \<^verbatim>\<open>*\<close>: the exact product, rounded.\<close>

fun num_times :: "number \<Rightarrow> number \<Rightarrow> number" where
  "num_times NaN _ = NaN"
| "num_times _ NaN = NaN"
| "num_times (Finite a) (Finite b) = roundDouble (a * b)"
| "num_times a b =
     (if num_sign a * num_sign b = 0 then NaN
      else if 0 < num_sign a * num_sign b then Infinity else NegInfinity)"

text \<open>\<^verbatim>\<open>Math.floor\<close> is exact: the floor of a double is a double.\<close>

fun Math_floor :: "number \<Rightarrow> number" where
  "Math_floor (Finite a) = Finite (of_int \<lfloor>a\<rfloor>)"
| "Math_floor n = n"

subsection \<open>parseFloat\<close>

text \<open>
  \<^verbatim>\<open>parseFloat\<close> skips leading white space and reads the longest prefix that is a
  decimal literal: an optional sign, then \<^verbatim>\<open>Infinity\<close>, or digits with an optional
  fraction and an optional exponent. Anything after that prefix is ignored; with no
  such prefix the result is \<^verbatim>\<open>NaN\<close>. The result is the double nearest to the value
  the literal denotes, so a literal too large gives an infinity and one too small
  gives zero. Strings are byte strings here, so only the ASCII white space
  characters are skipped.
\<close>

definition isWhiteSpace :: "char \<Rightarrow> bool" where
  "isWhiteSpace c = (of_char c \<in> {9, 10, 11, 12, 13, 32 :: nat})"

definition isDigit :: "char \<Rightarrow> bool" where
  "isDigit c = (48 \<le> (of_char c :: nat) \<and> (of_char c :: nat) \<le> 57)"

definition digitsValue :: "string \<Rightarrow> nat" where
  "digitsValue ds = foldl (\<lambda>a c. 10 * a + (of_char c - 48)) 0 ds"

definition splitSign :: "string \<Rightarrow> bool \<times> string" where
  "splitSign s =
     (case s of
        [] \<Rightarrow> (False, [])
      | c # cs \<Rightarrow>
          if c = CHR ''-'' then (True, cs)
          else if c = CHR ''+'' then (False, cs)
          else (False, s))"

definition splitFraction :: "string \<Rightarrow> string \<times> string" where
  "splitFraction s =
     (case s of
        [] \<Rightarrow> ([], [])
      | c # cs \<Rightarrow>
          if c = CHR ''.'' then (takeWhile isDigit cs, dropWhile isDigit cs)
          else ([], s))"

definition exponentPart :: "string \<Rightarrow> int" where
  "exponentPart s =
     (case s of
        [] \<Rightarrow> 0
      | c # cs \<Rightarrow>
          if c = CHR ''e'' \<or> c = CHR ''E'' then
            (let (neg, r) = splitSign cs; ds = takeWhile isDigit r
             in if ds = [] then 0
                else if neg then - int (digitsValue ds) else int (digitsValue ds))
          else 0)"

definition pow10 :: "int \<Rightarrow> rat" where
  "pow10 e = (if 0 \<le> e then 10 ^ nat e else 1 / 10 ^ nat (- e))"

definition parseFloat :: "string \<Rightarrow> number" where
  "parseFloat inputString =
     (let (neg, rest) = splitSign (dropWhile isWhiteSpace inputString)
      in if take 8 rest = ''Infinity'' then (if neg then NegInfinity else Infinity)
         else
           (let ip = takeWhile isDigit rest;
                (fp, r2) = splitFraction (dropWhile isDigit rest)
            in if ip = [] \<and> fp = [] then NaN
               else
                 (let m = of_nat (digitsValue (ip @ fp)) / 10 ^ length fp * pow10 (exponentPart r2)
                  in roundDouble (if neg then - m else m))))"

section \<open>The API client (lib/api/solana.ts)\<close>

text \<open>
  A message is a string literal of the source, or one of its two template strings:
  the insufficient-balance text (which formats the balance) and \<^verbatim>\<open>HTTP ${status}\<close>.
\<close>

datatype message = Literal string | InsufficientBalance number | HttpStatus nat

text \<open>A thrown value is an \<^verbatim>\<open>Error\<close> with its message, or something else.\<close>

datatype thrown = Error message | NotAnError

record BridgeQuoteRequest =
  amount_lamports :: number
  recipient_zcash_address :: string

type_synonym ExecuteBridgeRequest = BridgeQuoteRequest

record BridgeQuoteResponse =
  amount_in :: string
  amount_in_formatted :: string
  amount_out :: string
  amount_out_formatted :: string
  quote_deposit_address :: string
  time_estimate :: number

record ExecuteBridgeResponse =
  bridge_tx_id :: string
  solana_signature :: string
  deposit_address :: string
  expected_zec :: string

record BridgeStatusRequest =
  request_deposit_address :: string

record TxHash =
  hash :: string
  explorerUrl :: string

record SwapDetails =
  depositedAmount :: string
  depositedAmountFormatted :: string
  amountOut :: string
  amountOutFormatted :: string
  destinationChainTxHashes :: "TxHash list option"

record BridgeStatusResponse =
  status :: string
  updatedAt :: "string option"
  swapDetails :: "SwapDetails option"

text \<open>
  What the network answers to one request: \<^verbatim>\<open>fetch\<close> itself rejects, or there is a
  response that is not OK (its status code, and its body read as JSON: unreadable, or
  an object whose \<^verbatim>\<open>error\<close> field may be missing), or an OK response whose body is
  unreadable or holds the value.
\<close>

datatype 'a json = Unreadable thrown | Parsed 'a

datatype 'a http_outcome =
    Rejected thrown
  | NotOk nat "string option json"
  | IsOk "'a json"

text \<open>
  \<^verbatim>\<open>SolanaAPI.fetch\<close>: a response that is not OK throws an \<^verbatim>\<open>Error\<close> whose message
  is the body's \<^verbatim>\<open>error\<close> field when that is a non-empty string, the text
  \<^verbatim>\<open>An error occurred\<close> when the body is unreadable, and \<^verbatim>\<open>HTTP ${status}\<close> otherwise.
\<close>

fun SolanaAPI_fetch :: "'a http_outcome \<Rightarrow> thrown + 'a" where
  "SolanaAPI_fetch (Rejected t) = Inl t"
| "SolanaAPI_fetch (NotOk code body) =
     (let error = (case body of Unreadable _ \<Rightarrow> Some ''An error occurred'' | Parsed e \<Rightarrow> e)
      in Inl (Error (case error of
                       None \<Rightarrow> HttpStatus code
                     | Some m \<Rightarrow> if m = [] then HttpStatus code else Literal m)))"
| "SolanaAPI_fetch (IsOk (Unreadable t)) = Inl t"
| "SolanaAPI_fetch (IsOk (Parsed v)) = Inr v"

text \<open>
  Every method of the client is one POST through \<^verbatim>\<open>SolanaAPI.fetch\<close>. An operation
  against the backend is recorded as the URL, the access token and the JSON body.
\<close>

datatype body =
    BalanceBody string
  | QuoteBody BridgeQuoteRequest
  | ExecuteBody ExecuteBridgeRequest
  | StatusBody BridgeStatusRequest

datatype effect =
    Fetch string string body
  | SetTimeout nat
  | ConsoleError thrown
  | OnSuccess
  | OnClose

definition getBalance :: "string \<Rightarrow> string \<Rightarrow> effect" where
  "getBalance userId accessToken = Fetch ''/solana/balance'' accessToken (BalanceBody userId)"

definition getBridgeQuote :: "BridgeQuoteRequest \<Rightarrow> string \<Rightarrow> effect" where
  "getBridgeQuote request accessToken = Fetch ''/solana/bridge/quote'' accessToken (QuoteBody request)"

definition executeBridge :: "ExecuteBridgeRequest \<Rightarrow> string \<Rightarrow> effect" where
  "executeBridge request accessToken =
     Fetch ''/solana/bridge/execute'' accessToken (ExecuteBody request)"

definition getBridgeStatus :: "BridgeStatusRequest \<Rightarrow> string \<Rightarrow> effect" where
  "getBridgeStatus request accessToken =
     Fetch ''/solana/bridge/status'' accessToken (StatusBody request)"

section \<open>The bridge modal (components/wallet/BridgeModal.tsx)\<close>

datatype BridgeStep =
  StepInput | StepQuote | StepExecuting | StepMonitoring | StepSuccess | StepError

text \<open>
  The props. \<^verbatim>\<open>onClose\<close> is always given and \<^verbatim>\<open>onSuccess\<close> is optional: calling
  them is an effect, and \<open>hasOnSuccess\<close> says whether the optional one was passed.
\<close>

record BridgeModalProps =
  isOpen :: bool
  userId :: string
  currentBalance :: number
  zcashAddress :: string
  solanaAddress :: string
  hasOnSuccess :: bool

text \<open>The component's state: one field for each \<^verbatim>\<open>useState\<close>.\<close>

record BridgeModal =
  amount :: string
  step :: BridgeStep
  error :: "message option"
  quote :: "BridgeQuoteResponse option"
  bridgeResult :: "ExecuteBridgeResponse option"
  bridgeStatus :: "BridgeStatusResponse option"
  isLoading :: bool

definition initialState :: BridgeModal where
  "initialState =
     \<lparr>amount = [], step = StepInput, error = None, quote = None, bridgeResult = None,
      bridgeStatus = None, isLoading = False\<rparr>"

text \<open>
  \<^verbatim>\<open>localStorage.getItem('shield_access_token') || ''\<close>, from what the storage holds.
\<close>

definition accessTokenOf :: "string option \<Rightarrow> string" where
  "accessTokenOf stored = (case stored of None \<Rightarrow> [] | Some t \<Rightarrow> t)"

text \<open>\<^verbatim>\<open>err instanceof Error ? err.message : fallback\<close>\<close>

definition messageOf :: "thrown \<Rightarrow> string \<Rightarrow> message" where
  "messageOf err fallback = (case err of Error m \<Rightarrow> m | NotAnError \<Rightarrow> Literal fallback)"

definition handleClose :: "BridgeModal \<Rightarrow> BridgeModal \<times> effect list" where
  "handleClose s =
     (if \<not> isLoading s \<and> step s \<noteq> StepExecuting \<and> step s \<noteq> StepMonitoring then
        (s\<lparr>amount := [], step := StepInput, error := None, quote := None,
           bridgeResult := None, bridgeStatus := None\<rparr>, [OnClose])
      else (s, []))"

text \<open>\<^verbatim>\<open>Math.floor(amountNum * 1_000_000_000)\<close>, the conversion both handlers use.\<close>

definition toLamports :: "number \<Rightarrow> number" where
  "toLamports amountNum = Math_floor (num_times amountNum (Finite 1000000000))"

text \<open>
  An async handler runs to its \<^verbatim>\<open>await\<close>, and resumes when the request settles; other
  events of the page can run in between. \<open>handleGetQuote_begin\<close> is the part before
  the \<^verbatim>\<open>await\<close>: the three checks and, when they pass, the quote request computed
  from the amount string as it is at the click. \<open>handleGetQuote_resume\<close> is the rest
  (\<^verbatim>\<open>try\<close>, \<^verbatim>\<open>catch\<close>, \<^verbatim>\<open>finally\<close>); its setters write into the state as it is then.
\<close>

definition handleGetQuote_begin ::
  "BridgeModalProps \<Rightarrow> string option \<Rightarrow> BridgeModal \<Rightarrow> BridgeModal \<times> effect list" where
  "handleGetQuote_begin p stored s =
     (if amount s = [] then (s\<lparr>error := Some (Literal ''Please enter an amount'')\<rparr>, [])
      else
        (let amountNum = parseFloat (amount s)
         in if isNaN amountNum \<or> num_less_eq amountNum (Finite 0) then
              (s\<lparr>error := Some (Literal ''Please enter a valid amount'')\<rparr>, [])
            else if num_greater amountNum (currentBalance p) then
              (s\<lparr>error := Some (InsufficientBalance (currentBalance p))\<rparr>, [])
            else
              (s\<lparr>isLoading := True, error := None\<rparr>,
               [getBridgeQuote
                  \<lparr>amount_lamports = toLamports amountNum,
                   recipient_zcash_address = zcashAddress p\<rparr>
                  (accessTokenOf stored)])))"

definition handleGetQuote_resume ::
  "BridgeQuoteResponse http_outcome \<Rightarrow> BridgeModal \<Rightarrow> BridgeModal" where
  "handleGetQuote_resume outcome s =
     (case SolanaAPI_fetch outcome of
        Inr quoteResponse \<Rightarrow> s\<lparr>quote := Some quoteResponse, step := StepQuote, isLoading := False\<rparr>
      | Inl err \<Rightarrow> s\<lparr>error := Some (messageOf err ''Failed to get quote''), isLoading := False\<rparr>)"

text \<open>The whole quote flow, when nothing else happens while the request is pending.\<close>

definition handleGetQuote ::
  "BridgeModalProps \<Rightarrow> string option \<Rightarrow> BridgeQuoteResponse http_outcome \<Rightarrow> BridgeModal
     \<Rightarrow> BridgeModal \<times> effect list" where
  "handleGetQuote p stored outcome s =
     (case handleGetQuote_begin p stored s of
        (s1, []) \<Rightarrow> (s1, [])
      | (s1, e # es) \<Rightarrow> (handleGetQuote_resume outcome s1, e # es))"

text \<open>
  \<open>handleExecuteBridge_begin\<close>: the guard on the quote and the amount string, then the
  execute request. \<open>handleExecuteBridge_resume\<close>: on success the result is stored,
  the step becomes monitoring and \<^verbatim>\<open>startMonitoring\<close> is called with the returned
  deposit address (the second component); on a throw the step becomes the error step.
\<close>

definition handleExecuteBridge_begin ::
  "BridgeModalProps \<Rightarrow> string option \<Rightarrow> BridgeModal \<Rightarrow> BridgeModal \<times> effect list" where
  "handleExecuteBridge_begin p stored s =
     (if quote s = None \<or> amount s = [] then (s, [])
      else
        (s\<lparr>isLoading := True, error := None, step := StepExecuting\<rparr>,
         [executeBridge
            \<lparr>amount_lamports = toLamports (parseFloat (amount s)),
             recipient_zcash_address = zcashAddress p\<rparr>
            (accessTokenOf stored)]))"

definition handleExecuteBridge_resume ::
  "ExecuteBridgeResponse http_outcome \<Rightarrow> BridgeModal \<Rightarrow> BridgeModal \<times> string option" where
  "handleExecuteBridge_resume outcome s =
     (case SolanaAPI_fetch outcome of
        Inr executeResponse \<Rightarrow>
          (s\<lparr>bridgeResult := Some executeResponse, step := StepMonitoring, isLoading := False\<rparr>,
           Some (deposit_address executeResponse))
      | Inl err \<Rightarrow>
          (s\<lparr>error := Some (messageOf err ''Failed to execute bridge''), step := StepError,
             isLoading := False\<rparr>, None))"

definition handleBack :: "BridgeModal \<Rightarrow> BridgeModal" where
  "handleBack s = s\<lparr>step := StepInput, error := None, quote := None\<rparr>"

subsection \<open>Monitoring\<close>

definition maxAttempts :: nat where
  "maxAttempts = 60"

text \<open>
  \<open>checkStatus\<close> issues one status request and, from what the network answers,
  returns whether monitoring is done, the state and the effects.
\<close>

definition checkStatus ::
  "BridgeModalProps \<Rightarrow> string \<Rightarrow> string \<Rightarrow> BridgeStatusResponse http_outcome \<Rightarrow> BridgeModal
     \<Rightarrow> bool \<times> BridgeModal \<times> effect list" where
  "checkStatus p depositAddress accessToken outcome s =
     (let request = getBridgeStatus \<lparr>request_deposit_address = depositAddress\<rparr> accessToken
      in case SolanaAPI_fetch outcome of
           Inr statusResponse \<Rightarrow>
             (let s1 = s\<lparr>bridgeStatus := Some statusResponse\<rparr>
              in if status statusResponse = ''COMPLETED'' \<or> status statusResponse = ''SUCCESS'' then
                   (True, s1\<lparr>step := StepSuccess\<rparr>,
                    request # (if hasOnSuccess p then [OnSuccess] else []))
                 else if status statusResponse = ''FAILED'' \<or> status statusResponse = ''ERROR'' then
                   (True, s1\<lparr>error := Some (Literal ''Bridge transaction failed''), step := StepError\<rparr>,
                    [request])
                 else (False, s1, [request]))
         | Inl err \<Rightarrow> (False, s, [request, ConsoleError err]))"

text \<open>
  \<open>poll\<close>: the counter is incremented, the status is checked, and then either the
  next poll is scheduled by \<^verbatim>\<open>setTimeout(poll, 5000)\<close>, or the budget is used up and
  the timeout message is set, or nothing more happens. \<open>outcomes n\<close> is what the
  network answers to the \<open>n\<close>-th status request.
\<close>

function poll ::
  "BridgeModalProps \<Rightarrow> string \<Rightarrow> string \<Rightarrow> (nat \<Rightarrow> BridgeStatusResponse http_outcome) \<Rightarrow> nat
     \<Rightarrow> BridgeModal \<Rightarrow> BridgeModal \<times> effect list" where
  "poll p depositAddress accessToken outcomes attempts s =
     (case checkStatus p depositAddress accessToken (outcomes (attempts + 1)) s of
        (isDone, s1, effs) \<Rightarrow>
          if \<not> isDone \<and> attempts + 1 < maxAttempts then
            (case poll p depositAddress accessToken outcomes (attempts + 1) s1 of
               (s2, later) \<Rightarrow> (s2, effs @ SetTimeout 5000 # later))
          else if attempts + 1 \<ge> maxAttempts then
            (s1\<lparr>error := Some (Literal ''Bridge monitoring timeout. Please check status manually.''),
                step := StepError\<rparr>, effs)
          else (s1, effs))"
  by pat_completeness auto
termination
  by (relation "measure (\<lambda>(p, d, t, outcomes, attempts, s). maxAttempts - attempts)") auto

declare poll.simps [simp del]

definition startMonitoring ::
  "BridgeModalProps \<Rightarrow> string \<Rightarrow> string \<Rightarrow> (nat \<Rightarrow> BridgeStatusResponse http_outcome)
     \<Rightarrow> BridgeModal \<Rightarrow> BridgeModal \<times> effect list" where
  "startMonitoring p depositAddress accessToken outcomes s =
     poll p depositAddress accessToken outcomes 0 s"

subsection \<open>The page as a machine of events\<close>

text \<open>
  What can happen to an open modal, from the JSX: the amount input and the Get Quote
  button are rendered in the input step, Back and Execute Bridge in the quote step
  (when a quote is held); the buttons are disabled while \<^verbatim>\<open>isLoading\<close>, and Get
  Quote also while the amount is empty. The amount input has no \<^verbatim>\<open>disabled\<close>
  attribute. A pending request settles as its own event. The close button of the
  header is disabled while loading and in the executing and monitoring steps, which
  is \<^verbatim>\<open>handleClose\<close>'s own guard.
\<close>

datatype pending = NoRequest | QuotePending | ExecutePending string

datatype event =
    Change string
  | ClickGetQuote
  | QuoteSettles "BridgeQuoteResponse http_outcome"
  | ClickBack
  | ClickExecute
  | ExecuteSettles "ExecuteBridgeResponse http_outcome" "nat \<Rightarrow> BridgeStatusResponse http_outcome"
  | ClickClose

record page =
  modal :: BridgeModal
  pending :: pending
  effects :: "effect list"

definition initialPage :: page where
  "initialPage = \<lparr>modal = initialState, pending = NoRequest, effects = []\<rparr>"

fun fire :: "BridgeModalProps \<Rightarrow> string option \<Rightarrow> page \<Rightarrow> event \<Rightarrow> page" where
  "fire p stored g (Change v) =
     (if isOpen p \<and> step (modal g) = StepInput then g\<lparr>modal := (modal g)\<lparr>amount := v\<rparr>\<rparr> else g)"
| "fire p stored g ClickGetQuote =
     (if isOpen p \<and> step (modal g) = StepInput \<and> \<not> isLoading (modal g) \<and> amount (modal g) \<noteq> [] then
        (case handleGetQuote_begin p stored (modal g) of
           (s1, es) \<Rightarrow>
             g\<lparr>modal := s1, pending := (if es = [] then pending g else QuotePending),
               effects := effects g @ es\<rparr>)
      else g)"
| "fire p stored g (QuoteSettles outcome) =
     (if pending g = QuotePending then
        g\<lparr>modal := handleGetQuote_resume outcome (modal g), pending := NoRequest\<rparr>
      else g)"
| "fire p stored g ClickBack =
     (if isOpen p \<and> step (modal g) = StepQuote \<and> quote (modal g) \<noteq> None \<and> \<not> isLoading (modal g) then
        g\<lparr>modal := handleBack (modal g)\<rparr>
      else g)"
| "fire p stored g ClickExecute =
     (if isOpen p \<and> step (modal g) = StepQuote \<and> quote (modal g) \<noteq> None \<and> \<not> isLoading (modal g) then
        (case handleExecuteBridge_begin p stored (modal g) of
           (s1, es) \<Rightarrow>
             g\<lparr>modal := s1,
               pending := (if es = [] then pending g else ExecutePending (accessTokenOf stored)),
               effects := effects g @ es\<rparr>)
      else g)"
| "fire p stored g (ExecuteSettles outcome outcomes) =
     (case pending g of
        ExecutePending accessToken \<Rightarrow>
          (case handleExecuteBridge_resume outcome (modal g) of
             (s1, None) \<Rightarrow> g\<lparr>modal := s1, pending := NoRequest\<rparr>
           | (s1, Some depositAddress) \<Rightarrow>
               (case startMonitoring p depositAddress accessToken outcomes s1 of
                  (s2, es) \<Rightarrow> g\<lparr>modal := s2, pending := NoRequest, effects := effects g @ es\<rparr>))
      | _ \<Rightarrow> g)"
| "fire p stored g ClickClose =
     (if isOpen p then
        (case handleClose (modal g) of (s1, es) \<Rightarrow> g\<lparr>modal := s1, effects := effects g @ es\<rparr>)
      else g)"

definition run :: "BridgeModalProps \<Rightarrow> string option \<Rightarrow> event list \<Rightarrow> page" where
  "run p stored evs = foldl (fire p stored) initialPage evs"

text \<open>The amounts of the quote requests and of the execute requests among some effects.\<close>

fun quotedAmounts :: "effect list \<Rightarrow> number list" where
  "quotedAmounts [] = []"
| "quotedAmounts (Fetch url tok (QuoteBody r) # es) = amount_lamports r # quotedAmounts es"
| "quotedAmounts (e # es) = quotedAmounts es"

fun executedAmounts :: "effect list \<Rightarrow> number list" where
  "executedAmounts [] = []"
| "executedAmounts (Fetch url tok (ExecuteBody r) # es) = amount_lamports r # executedAmounts es"
| "executedAmounts (e # es) = executedAmounts es"

section \<open>The ledger (migrations/005_create_solana_wallets.sql)\<close>

text \<open>
  A row of \<^verbatim>\<open>bridge_transactions\<close>: one field for each column, named as the column
  with the prefix \<open>col_\<close>. A column that is not declared \<^verbatim>\<open>NOT NULL\<close> holds an option.
\<close>

type_synonym uuid = string
type_synonym timestamptz = int
type_synonym bigint = "64 word"

record bridge_transactions =
  col_id :: uuid
  col_user_id :: uuid
  col_solana_tx_signature :: "string option"
  col_deposit_address :: string
  col_amount_sol_lamports :: bigint
  col_expected_zec_zatoshis :: "bigint option"
  col_status :: string
  col_error_message :: "string option"
  col_near_intent_hashes :: "string list option"
  col_near_tx_hashes :: "string list option"
  col_zec_tx_hash :: "string option"
  col_actual_zec_zatoshis :: "bigint option"
  col_refund_address :: string
  col_recipient_address :: string
  col_created_at :: timestamptz
  col_updated_at :: timestamptz
  col_completed_at :: "timestamptz option"

text \<open>
  The row an \<^verbatim>\<open>INSERT\<close> stores when it gives only the columns that have no default
  and cannot be null: \<^verbatim>\<open>gen_random_uuid()\<close>, \<^verbatim>\<open>'PENDING'\<close> and \<^verbatim>\<open>NOW()\<close> fill the rest.
\<close>

definition row_with_defaults ::
  "uuid \<Rightarrow> timestamptz \<Rightarrow> uuid \<Rightarrow> string \<Rightarrow> bigint \<Rightarrow> string \<Rightarrow> string \<Rightarrow> bridge_transactions" where
  "row_with_defaults gen_random_uuid now user dep lamports refund recipient =
     \<lparr>col_id = gen_random_uuid, col_user_id = user, col_solana_tx_signature = None,
      col_deposit_address = dep, col_amount_sol_lamports = lamports,
      col_expected_zec_zatoshis = None, col_status = ''PENDING'', col_error_message = None,
      col_near_intent_hashes = None, col_near_tx_hashes = None, col_zec_tx_hash = None,
      col_actual_zec_zatoshis = None, col_refund_address = refund,
      col_recipient_address = recipient, col_created_at = now, col_updated_at = now,
      col_completed_at = None\<rparr>"

text \<open>
  The constraints the table declares are the primary key on \<^verbatim>\<open>id\<close> and the foreign
  key from \<^verbatim>\<open>user_id\<close> to \<^verbatim>\<open>users(id)\<close>. Its four \<^verbatim>\<open>CREATE INDEX\<close> statements (on
  \<^verbatim>\<open>user_id\<close>, \<^verbatim>\<open>status\<close>, \<^verbatim>\<open>deposit_address\<close> and \<^verbatim>\<open>created_at\<close>) are plain indexes, none
  is \<^verbatim>\<open>UNIQUE\<close>: they constrain nothing. \<open>users\<close> are the ids of the \<^verbatim>\<open>users\<close> table.
\<close>

datatype sql_error = UniqueViolation string | ForeignKeyViolation string

text \<open>
  \<open>violation users tbl\<close> is the constraint a table breaks, if any: \<open>None\<close> says
  that the table satisfies both constraints.
\<close>

definition violation :: "uuid list \<Rightarrow> bridge_transactions list \<Rightarrow> sql_error option" where
  "violation users tbl =
     (if \<not> distinct (map col_id tbl) then Some (UniqueViolation ''bridge_transactions_pkey'')
      else if \<not> list_all (\<lambda>r. col_user_id r \<in> set users) tbl then
        Some (ForeignKeyViolation ''bridge_transactions_user_id_fkey'')
      else None)"

definition insert_bridge_transactions ::
  "uuid list \<Rightarrow> bridge_transactions list \<Rightarrow> bridge_transactions
     \<Rightarrow> sql_error + bridge_transactions list" where
  "insert_bridge_transactions users tbl r =
     (case violation users (tbl @ [r]) of
        Some e \<Rightarrow> Inl e
      | None \<Rightarrow> Inr (tbl @ [r]))"

text \<open>
  The trigger function: \<^verbatim>\<open>NEW.updated_at = NOW(); RETURN NEW;\<close>. The trigger
  \<^verbatim>\<open>update_bridge_transactions_updated_at\<close> runs it \<^verbatim>\<open>BEFORE UPDATE ... FOR EACH ROW\<close>:
  an \<^verbatim>\<open>UPDATE ... SET ... WHERE ...\<close> computes the new row of every row its
  \<^verbatim>\<open>WHERE\<close> selects, passes it through the trigger function and stores the result.
  \<open>now\<close> is what \<^verbatim>\<open>NOW()\<close> returns: the start time of the current transaction, the
  same for every statement of one transaction.
\<close>

definition update_updated_at_column :: "timestamptz \<Rightarrow> bridge_transactions \<Rightarrow> bridge_transactions" where
  "update_updated_at_column now new = new\<lparr>col_updated_at := now\<rparr>"

definition update_bridge_transactions ::
  "timestamptz \<Rightarrow> uuid list \<Rightarrow> (bridge_transactions \<Rightarrow> bool)
     \<Rightarrow> (bridge_transactions \<Rightarrow> bridge_transactions) \<Rightarrow> bridge_transactions list
     \<Rightarrow> sql_error + bridge_transactions list" where
  "update_bridge_transactions now users where_clause set_clause tbl =
     (let tbl' = map (\<lambda>old. if where_clause old then update_updated_at_column now (set_clause old)
                             else old) tbl
      in case violation users tbl' of
           Some e \<Rightarrow> Inl e
         | None \<Rightarrow> Inr tbl')"

section \<open>Notions the statements use\<close>

text \<open>
  The outcomes of a status request that \<open>checkStatus\<close> reports as done: a readable OK
  response whose status is one of the four strings the source compares with, the
  fulfilled ones (\<^verbatim>\<open>COMPLETED\<close>, \<^verbatim>\<open>SUCCESS\<close>) and the failed ones (\<^verbatim>\<open>FAILED\<close>,
  \<^verbatim>\<open>ERROR\<close>). A refund is the outcome with the status \<^verbatim>\<open>REFUNDED\<close>, which the ledger
  lists among its statuses and the source compares with nowhere.
\<close>

definition fulfilledOrFailed :: "BridgeStatusResponse http_outcome \<Rightarrow> bool" where
  "fulfilledOrFailed outcome =
     (case SolanaAPI_fetch outcome of
        Inl err \<Rightarrow> False
      | Inr r \<Rightarrow> status r \<in> set [''COMPLETED'', ''SUCCESS'', ''FAILED'', ''ERROR''])"


text \<open>The requests and the timers among some effects, in their order.\<close>

fun isFetch :: "effect \<Rightarrow> bool" where
  "isFetch (Fetch url tok b) = True"
| "isFetch e = False"

fun isFetchOrTimer :: "effect \<Rightarrow> bool" where
  "isFetchOrTimer (Fetch url tok b) = True"
| "isFetchOrTimer (SetTimeout ms) = True"
| "isFetchOrTimer e = False"

definition schedule :: "effect list \<Rightarrow> effect list" where
  "schedule es = filter isFetchOrTimer es"


subsection \<open>Concrete inputs\<close>

definition exampleProps :: "number \<Rightarrow> BridgeModalProps" where
  "exampleProps balance =
     \<lparr>isOpen = True, userId = ''user-1'', currentBalance = balance,
      zcashAddress = ''u1recipient'', solanaAddress = ''So1refund'', hasOnSuccess = True\<rparr>"

definition exampleQuote :: BridgeQuoteResponse where
  "exampleQuote =
     \<lparr>amount_in = ''1000000000'', amount_in_formatted = ''1.0'', amount_out = ''5000000'',
      amount_out_formatted = ''0.05'', quote_deposit_address = ''D1'', time_estimate = Finite 10\<rparr>"

definition statusResponse :: "string \<Rightarrow> BridgeStatusResponse http_outcome" where
  "statusResponse st = IsOk (Parsed \<lparr>status = st, updatedAt = None, swapDetails = None\<rparr>)"

definition monitoringState :: BridgeModal where
  "monitoringState =
     \<lparr>amount = ''1'', step = StepMonitoring, error = None, quote = Some exampleQuote,
      bridgeResult =
        Some \<lparr>bridge_tx_id = ''b1'', solana_signature = ''sig1'', deposit_address = ''D1'',
              expected_zec = ''0.05''\<rparr>,
      bridgeStatus = None, isLoading = False\<rparr>"

definition statusRequest :: effect where
  "statusRequest = getBridgeStatus \<lparr>request_deposit_address = ''D1''\<rparr> ''token''"

definition exampleRow :: "uuid \<Rightarrow> timestamptz \<Rightarrow> bridge_transactions" where
  "exampleRow rid now =
     row_with_defaults rid now ''user-1'' ''D1'' 500000000 ''So1refund'' ''u1recipient''"



definition neverSettles :: "nat \<Rightarrow> BridgeStatusResponse http_outcome" where
  "neverSettles n = statusResponse ''PROCESSING''"

definition refundedThenSuccess :: "nat \<Rightarrow> BridgeStatusResponse http_outcome" where
  "refundedThenSuccess n = (if n = 1 then statusResponse ''REFUNDED'' else statusResponse ''SUCCESS'')"

definition serverError :: "nat \<Rightarrow> BridgeStatusResponse http_outcome" where
  "serverError n = NotOk 500 (Parsed None)"

definition alwaysStatus :: "string \<Rightarrow> nat \<Rightarrow> BridgeStatusResponse http_outcome" where
  "alwaysStatus st n = statusResponse st"

definition quotedState :: "string \<Rightarrow> BridgeModal" where
  "quotedState amt =
     \<lparr>amount = amt, step = StepQuote, error = None, quote = Some exampleQuote,
      bridgeResult = None, bridgeStatus = None, isLoading = False\<rparr>"

definition editWhileQuoting :: "event list" where
  "editWhileQuoting =
     [Change ''1'', ClickGetQuote, Change ''2'', QuoteSettles (IsOk (Parsed exampleQuote)),
      ClickExecute]"

definition quoteThenExecute :: "event list" where
  "quoteThenExecute =
     [Change ''1'', ClickGetQuote, QuoteSettles (IsOk (Parsed exampleQuote)), ClickExecute]"

definition depositObserved :: "bridge_transactions \<Rightarrow> bridge_transactions" where
  "depositObserved r =
     r\<lparr>col_status := ''PROCESSING'', col_solana_tx_signature := Some ''sig1'', col_updated_at := 5\<rparr>"

definition atDepositAddress :: "string \<Rightarrow> bridge_transactions \<Rightarrow> bool" where
  "atDepositAddress d r = (col_deposit_address r = d)"

subsection \<open>Quoted and executed amounts along a run\<close>

text \<open>
  \<open>lastQuoted\<close> is the amount of the latest quote request among some effects, and
  \<open>executesAsQuoted\<close> says that every execute request carries the amount of the
  latest quote request before it. \<open>noEditWhileQuoting\<close> says of a list of events,
  fired from a page, that none of them changes the amount while a quote request is
  pending. An effect is \<open>neutral\<close> when it is neither kind of request. A page is
  \<open>consistent\<close> when its execute requests are as quoted and, while a quote request is
  pending or a quote is shown, the latest quoted amount is the one the amount string
  converts to.
\<close>

fun lastQuoted :: "number option \<Rightarrow> effect list \<Rightarrow> number option" where
  "lastQuoted acc [] = acc"
| "lastQuoted acc (Fetch url tok (QuoteBody r) # es) = lastQuoted (Some (amount_lamports r)) es"
| "lastQuoted acc (e # es) = lastQuoted acc es"

fun executesAsQuoted :: "number option \<Rightarrow> effect list \<Rightarrow> bool" where
  "executesAsQuoted acc [] = True"
| "executesAsQuoted acc (Fetch url tok (QuoteBody r) # es) =
     executesAsQuoted (Some (amount_lamports r)) es"
| "executesAsQuoted acc (Fetch url tok (ExecuteBody r) # es) =
     (acc = Some (amount_lamports r) \<and> executesAsQuoted acc es)"
| "executesAsQuoted acc (e # es) = executesAsQuoted acc es"

fun noEditWhileQuoting :: "BridgeModalProps \<Rightarrow> string option \<Rightarrow> page \<Rightarrow> event list \<Rightarrow> bool" where
  "noEditWhileQuoting p stored g [] = True"
| "noEditWhileQuoting p stored g (Change v # evs) =
     (pending g \<noteq> QuotePending \<and> noEditWhileQuoting p stored (fire p stored g (Change v)) evs)"
| "noEditWhileQuoting p stored g (e # evs) = noEditWhileQuoting p stored (fire p stored g e) evs"

fun neutral :: "effect \<Rightarrow> bool" where
  "neutral (Fetch url tok (QuoteBody r)) = False"
| "neutral (Fetch url tok (ExecuteBody r)) = False"
| "neutral e = True"

definition consistent :: "page \<Rightarrow> bool" where
  "consistent g =
     (executesAsQuoted None (effects g) \<and>
      (pending g = QuotePending \<longrightarrow>
         step (modal g) = StepInput \<and> isLoading (modal g) \<and>
         lastQuoted None (effects g) = Some (toLamports (parseFloat (amount (modal g))))) \<and>
      (step (modal g) = StepQuote \<longrightarrow>
         lastQuoted None (effects g) = Some (toLamports (parseFloat (amount (modal g))))))"

section \<open>Evaluation and unfolding lemmas\<close>

lemmas parse_defs = parseFloat_def splitSign_def splitFraction_def isDigit_def
  isWhiteSpace_def digitsValue_def exponentPart_def pow10_def

subsection \<open>Rounding\<close>

text \<open>
  \<open>floorLog2\<close> is right: it gives the binary exponent of every positive rational.
  From that, a number is rounded to the multiple of its spacing that lies within
  half a step of it, a number from \<open>2 ^ 1024\<close> on to infinity, and a number below
  half the least subnormal to zero.
\<close>

lemma pow2_powi: "pow2 k = 2 powi k"
  by (simp add: pow2_def power_int_def power_one_over inverse_eq_divide)

lemma pow2_pos: "0 < pow2 k"
  by (simp add: pow2_powi)

lemma pow2_less: "k < l \<Longrightarrow> pow2 k < pow2 l"
  by (simp add: pow2_powi power_int_strict_increasing)

lemma pow2_le: "k \<le> l \<Longrightarrow> pow2 k \<le> pow2 l"
  by (simp add: pow2_powi power_int_increasing)

lemma bitLength_bounds:
  "0 < n \<Longrightarrow> 2 ^ (bitLength n - 1) \<le> n \<and> n < 2 ^ bitLength n"
proof (induction n rule: bitLength.induct)
  case (1 n)
  show ?case
  proof (cases "n div 2 = 0")
    case True
    with 1(2) have "n = 1" by (simp add: div_eq_0_iff) 
    then show ?thesis by (simp add: bitLength.simps)
  next
    case False
    with 1 have ih: "2 ^ (bitLength (n div 2) - 1) \<le> n div 2" "n div 2 < 2 ^ bitLength (n div 2)"
      by simp_all
    from False have b: "0 < bitLength (n div 2)"
      by (simp add: bitLength.simps [of "n div 2"])
    from 1(2) have s: "bitLength n = Suc (bitLength (n div 2))"
      by (simp add: bitLength.simps [of n])
    from b have "(2::nat) ^ bitLength (n div 2) = 2 * 2 ^ (bitLength (n div 2) - 1)"
      by (cases "bitLength (n div 2)") simp_all
    with ih(1) have lo: "2 ^ bitLength (n div 2) \<le> n" by simp
    from ih(2) have hi: "n < 2 * 2 ^ bitLength (n div 2)" by simp
    from lo hi s show ?thesis by simp
  qed
qed

lemma floorLog2_bounds:
  assumes "0 < a"
  shows "pow2 (floorLog2 a) \<le> a \<and> a < pow2 (floorLog2 a + 1)"
proof (cases "1 \<le> a")
  case True
  define n where "n = nat \<lfloor>a\<rfloor>"
  from True have n: "0 < n" "of_nat n \<le> a" "a < of_nat n + 1"
    unfolding n_def by (simp_all add: le_floor_iff) linarith+
  from bitLength_bounds [OF n(1)]
  have b: "2 ^ (bitLength n - 1) \<le> n" "n < 2 ^ bitLength n" by simp_all
  from n(1) have p: "0 < bitLength n" by (simp add: bitLength.simps [of n])
  from True have f: "floorLog2 a = int (bitLength n) - 1"
    by (simp add: floorLog2_def n_def)
  from p have f1: "pow2 (floorLog2 a) = 2 ^ (bitLength n - 1)"
    unfolding f by (simp add: pow2_def nat_diff_distrib)
  from p have f2: "pow2 (floorLog2 a + 1) = 2 ^ bitLength n"
    unfolding f by (simp add: pow2_def)
  from b(1) have "(of_nat (2 ^ (bitLength n - 1)) :: rat) \<le> of_nat n"
    by (simp only: of_nat_le_iff)
  then have "(2::rat) ^ (bitLength n - 1) \<le> of_nat n" by simp
  with n(2) have lo: "pow2 (floorLog2 a) \<le> a" unfolding f1 by linarith
  from b(2) have "Suc n \<le> 2 ^ bitLength n" by simp
  then have "(of_nat (Suc n) :: rat) \<le> of_nat (2 ^ bitLength n)"
    by (simp only: of_nat_le_iff)
  then have "(of_nat n :: rat) + 1 \<le> 2 ^ bitLength n" by simp
  with n(3) have hi: "a < pow2 (floorLog2 a + 1)" unfolding f2 by linarith
  from lo hi show ?thesis ..
next
  case False
  define n where "n = nat (\<lceil>1 / a\<rceil> - 1)"
  from False assms have big: "1 < 1 / a" by (simp add: field_simps)
  then have c: "2 \<le> \<lceil>1 / a\<rceil>" by (simp add: le_ceiling_iff)
  have c1: "of_int \<lceil>1 / a\<rceil> - 1 < 1 / a" "1 / a \<le> of_int \<lceil>1 / a\<rceil>"
    using ceiling_correct [of "1 / a"] by simp_all
  from c have cp: "0 < \<lceil>1 / a\<rceil> - 1" by linarith
  then have cn: "0 \<le> \<lceil>1 / a\<rceil> - 1" by linarith
  from cp have n1: "0 < n" unfolding n_def by (simp only: zero_less_nat_eq)
  have "(of_nat n :: rat) = of_int (\<lceil>1 / a\<rceil> - 1)"
    unfolding n_def by (rule of_nat_nat [OF cn])
  then have n2: "(of_nat n :: rat) = of_int \<lceil>1 / a\<rceil> - 1" by simp
  note n = n1 n2
  from bitLength_bounds [OF n(1)]
  have b: "2 ^ (bitLength n - 1) \<le> n" "n < 2 ^ bitLength n" by simp_all
  from n(1) have p: "0 < bitLength n" by (simp add: bitLength.simps [of n])
  from False have f: "floorLog2 a = - int (bitLength n)"
    by (simp add: floorLog2_def n_def)
  from p have f1: "pow2 (floorLog2 a) = 1 / 2 ^ bitLength n"
    unfolding f by (simp add: pow2_def)
  from p have f2: "pow2 (floorLog2 a + 1) = 1 / 2 ^ (bitLength n - 1)"
    unfolding f by (auto simp: pow2_def nat_diff_distrib)
  from b(2) have "Suc n \<le> 2 ^ bitLength n" by simp
  then have "(of_nat (Suc n) :: rat) \<le> of_nat (2 ^ bitLength n)"
    by (simp only: of_nat_le_iff)
  then have "(of_nat n :: rat) + 1 \<le> 2 ^ bitLength n" by simp
  with c1(2) n(2) have "1 / a \<le> 2 ^ bitLength n" by linarith
  with assms have lo: "pow2 (floorLog2 a) \<le> a"
    unfolding f1 by (simp add: field_simps)
  from b(1) have "(of_nat (2 ^ (bitLength n - 1)) :: rat) \<le> of_nat n"
    by (simp only: of_nat_le_iff)
  then have "(2::rat) ^ (bitLength n - 1) \<le> of_nat n" by simp
  with c1(1) n(2) have "2 ^ (bitLength n - 1) < 1 / a" by linarith
  with assms have hi: "a < pow2 (floorLog2 a + 1)"
    unfolding f2 by (simp add: field_simps)
  from lo hi show ?thesis ..
qed

lemma floorLog2_unique:
  assumes "0 < a" "pow2 e \<le> a" "a < pow2 (e + 1)"
  shows "floorLog2 a = e"
proof (rule ccontr)
  assume ne: "floorLog2 a \<noteq> e"
  from floorLog2_bounds [OF assms(1)]
  have b: "pow2 (floorLog2 a) \<le> a" "a < pow2 (floorLog2 a + 1)" by simp_all
  show False
  proof (cases "floorLog2 a < e")
    case True
    then have "pow2 (floorLog2 a + 1) \<le> pow2 e" by (intro pow2_le) simp
    with b(2) assms(2) show False by simp
  next
    case False
    with ne have "e + 1 \<le> floorLog2 a" by simp
    then have "pow2 (e + 1) \<le> pow2 (floorLog2 a)" by (rule pow2_le)
    with b(1) assms(3) show False by simp
  qed
qed

lemma roundHalfEven_nearest:
  assumes "of_int m - 1 / 2 < x" "x < of_int m + 1 / 2"
  shows "roundHalfEven x = m"
proof (cases "of_int m \<le> x")
  case True
  with assms(2) have "\<lfloor>x\<rfloor> = m" by (simp add: floor_eq_iff)
  with assms(2) show ?thesis by (simp add: roundHalfEven_def Let_def)
next
  case False
  with assms(1) have f: "\<lfloor>x\<rfloor> = m - 1" by (simp add: floor_eq_iff)
  from assms(1) have "1 / 2 < x - of_int (m - 1)" by simp
  then show ?thesis unfolding roundHalfEven_def Let_def f by simp
qed

lemma roundDouble_nearest:
  assumes "0 < a" "pow2 e \<le> a" "a < pow2 (e + 1)"
    and "of_int m - 1 / 2 < a / pow2 (max (e - 52) (- 1074))"
    and "a / pow2 (max (e - 52) (- 1074)) < of_int m + 1 / 2"
    and "of_int m * pow2 (max (e - 52) (- 1074)) < 2 ^ 1024"
  shows "roundDouble a = Finite (of_int m * pow2 (max (e - 52) (- 1074)))"
proof -
  from assms(1-3) have e: "floorLog2 a = e" by (rule floorLog2_unique)
  from assms(1) have a: "\<bar>a\<bar> = a" "a \<noteq> 0" "\<not> a < 0" by simp_all
  from assms(4,5) have m: "roundHalfEven (a / pow2 (max (e - 52) (- 1074))) = m"
    by (rule roundHalfEven_nearest)
  from assms(6) have "\<not> 2 ^ 1024 \<le> of_int m * pow2 (max (e - 52) (- 1074))" by simp
  then show ?thesis
    unfolding roundDouble_def Let_def a e m by (simp only: a if_False)
qed

text \<open>The numbers of the concrete inputs.\<close>

lemma roundDouble_examples:
  "roundDouble 1 = Finite 1" "roundDouble 2 = Finite 2" "roundDouble 5 = Finite 5"
  "roundDouble 1000000000 = Finite 1000000000"
  "roundDouble 2000000000 = Finite 2000000000"
  "roundDouble 5000000000 = Finite 5000000000"
  "roundDouble (1 / 2000000000) = Finite (4835703278458517 / 9671406556917033397649408)"
  "roundDouble (4835703278458517 / 9671406556917033397649408 * 1000000000) = Finite (1 / 2)"
  using roundDouble_nearest [of 1 0 4503599627370496]
    roundDouble_nearest [of 2 1 4503599627370496]
    roundDouble_nearest [of 5 2 5629499534213120]
    roundDouble_nearest [of 1000000000 29 8388608000000000]
    roundDouble_nearest [of 2000000000 30 8388608000000000]
    roundDouble_nearest [of 5000000000 32 5242880000000000]
    roundDouble_nearest [of "1 / 2000000000" "- 31" 4835703278458517]
    roundDouble_nearest [of "4835703278458517 / 9671406556917033397649408 * 1000000000" "- 1"
      4503599627370496]
  by (simp_all add: pow2_def)

lemma parseFloat_examples:
  "parseFloat ''1'' = Finite 1" "parseFloat ''2'' = Finite 2" "parseFloat ''5'' = Finite 5"
  "parseFloat ''0.0000000005'' = Finite (4835703278458517 / 9671406556917033397649408)"
  by (simp_all add: parse_defs roundDouble_examples)

lemma toLamports_examples:
  "toLamports (Finite 1) = Finite 1000000000" "toLamports (Finite 2) = Finite 2000000000"
  "toLamports (Finite 5) = Finite 5000000000"
  "toLamports (Finite (4835703278458517 / 9671406556917033397649408)) = Finite 0"
proof -
  show "toLamports (Finite 1) = Finite 1000000000" "toLamports (Finite 2) = Finite 2000000000"
    "toLamports (Finite 5) = Finite 5000000000"
    by (simp_all add: toLamports_def roundDouble_examples)
  have "toLamports (Finite (4835703278458517 / 9671406556917033397649408)) =
      Math_floor (Finite (1 / 2))"
    by (simp only: toLamports_def num_times.simps roundDouble_examples)
  then show "toLamports (Finite (4835703278458517 / 9671406556917033397649408)) = Finite 0"
    by (simp add: floor_eq_iff)
qed

lemma pow2_add: "pow2 (k + l) = pow2 k * pow2 l"
  by (simp add: pow2_powi power_int_add)

lemma pow2_less_cancel: "pow2 k < pow2 l \<Longrightarrow> k < l"
  using pow2_le [of l k] by (cases "k < l") simp_all

lemma roundHalfEven_ge_floor: "\<lfloor>x\<rfloor> \<le> roundHalfEven x"
  by (simp add: roundHalfEven_def Let_def)

lemma roundDouble_overflow:
  assumes "2 ^ 1024 \<le> a"
  shows "roundDouble a = Infinity"
proof -
  have p: "(2::rat) ^ 1024 = pow2 1024" by (simp add: pow2_def)
  from assms have a: "0 < a" "\<bar>a\<bar> = a" "a \<noteq> 0" "\<not> a < 0"
    by (simp_all add: less_le_trans [of 0 "2 ^ 1024" a])
  define e where "e = floorLog2 a"
  from floorLog2_bounds [OF a(1)] have b: "pow2 e \<le> a" "a < pow2 (e + 1)"
    by (simp_all add: e_def)
  from assms b(2) have "pow2 1024 < pow2 (e + 1)" unfolding p by simp
  then have e: "1024 \<le> e" using pow2_less_cancel [of 1024 "e + 1"] by simp
  then have u: "max (e - 52) (- 1074) = e - 52" by simp
  have split: "pow2 e = pow2 52 * pow2 (e - 52)"
    using pow2_add [of 52 "e - 52"] by simp
  have "pow2 52 = pow2 e / pow2 (e - 52)"
    unfolding split using pow2_pos [of "e - 52"] by simp
  also have "\<dots> \<le> a / pow2 (e - 52)"
    using b(1) pow2_pos [of "e - 52"] by (simp add: divide_right_mono)
  finally have "(2::rat) ^ 52 \<le> a / pow2 (e - 52)" by (simp add: pow2_def)
  then have "(2::int) ^ 52 \<le> \<lfloor>a / pow2 (e - 52)\<rfloor>" by (simp add: le_floor_iff)
  with roundHalfEven_ge_floor [of "a / pow2 (e - 52)"]
  have "(2::int) ^ 52 \<le> roundHalfEven (a / pow2 (e - 52))" by linarith
  then have "(of_int (2 ^ 52) :: rat) \<le> of_int (roundHalfEven (a / pow2 (e - 52)))"
    by (simp only: of_int_le_iff)
  then have "pow2 52 \<le> of_int (roundHalfEven (a / pow2 (e - 52)))"
    by (simp add: pow2_def)
  then have "pow2 52 * pow2 (e - 52) \<le>
      of_int (roundHalfEven (a / pow2 (e - 52))) * pow2 (e - 52)"
    using pow2_pos [of "e - 52"] by (simp add: mult_right_mono)
  with pow2_le [OF e] have "2 ^ 1024 \<le> of_int (roundHalfEven (a / pow2 (e - 52))) * pow2 (e - 52)"
    unfolding p split by (rule order_trans)
  then show ?thesis
    unfolding roundDouble_def Let_def a e_def [symmetric] u by (simp only: a if_True if_False)
qed

lemma roundDouble_underflow:
  assumes "0 < a" "a < 1 / 2 ^ 1075"
  shows "roundDouble a = Finite 0"
proof -
  have p: "(1::rat) / 2 ^ 1075 = pow2 (- 1075)" by (simp add: pow2_def)
  define e where "e = floorLog2 a"
  from floorLog2_bounds [OF assms(1)] have b: "pow2 e \<le> a" "a < pow2 (e + 1)"
    by (simp_all add: e_def)
  from b(1) assms(2) have "pow2 e < pow2 (- 1075)" unfolding p by simp
  then have "e < - 1075" by (rule pow2_less_cancel)
  then have u: "max (e - 52) (- 1074) = - 1074" by simp
  have "pow2 (- 1075) = pow2 (- 1) * pow2 (- 1074)"
    using pow2_add [of "- 1" "- 1074"] by simp
  then have h: "pow2 (- 1075) / pow2 (- 1074) = 1 / 2"
    using pow2_pos [of "- 1074"] by (simp add: pow2_def)
  from assms(2) have "a / pow2 (- 1074) < pow2 (- 1075) / pow2 (- 1074)"
    unfolding p using pow2_pos [of "- 1074"] by (simp add: divide_strict_right_mono)
  then have hi: "a / pow2 (- 1074) < of_int 0 + 1 / 2" unfolding h by simp
  from assms(1) pow2_pos [of "- 1074"] have "0 < a / pow2 (- 1074)" by simp
  then have lo: "of_int 0 - 1 / 2 < a / pow2 (- 1074)" by simp
  from roundDouble_nearest [OF assms(1) b, of 0] lo hi show ?thesis
    unfolding u by simp
qed

text \<open>
  Three inputs where rounding shows: \<^verbatim>\<open>8.2\<close> is not a double, and the product with
  \<^verbatim>\<open>1_000_000_000\<close> rounds below 8200000000; \<^verbatim>\<open>1e400\<close> overflows; \<^verbatim>\<open>1e-400\<close>
  underflows to zero.
\<close>

lemma parseFloat_rounds:
  "parseFloat ''8.2'' = Finite (2308094809027379 / 281474976710656)"
  "toLamports (parseFloat ''8.2'') = Finite 8199999999"
  "parseFloat ''1e400'' = Infinity"
  "parseFloat ''1e-400'' = Finite 0"
proof -
  have r: "roundDouble (41 / 5) = Finite (2308094809027379 / 281474976710656)"
    using roundDouble_nearest [of "41 / 5" 3 4616189618054758] by (simp add: pow2_def)
  then show p: "parseFloat ''8.2'' = Finite (2308094809027379 / 281474976710656)"
    by (simp add: parse_defs)
  have "roundDouble (2308094809027379 / 281474976710656 * 1000000000) =
      Finite (8598323199999999 / 1048576)"
    using roundDouble_nearest [of "2308094809027379 / 281474976710656 * 1000000000" 32
        8598323199999999]
    by (simp add: pow2_def)
  then have "toLamports (parseFloat ''8.2'') = Math_floor (Finite (8598323199999999 / 1048576))"
    by (simp only: p toLamports_def num_times.simps)
  then show "toLamports (parseFloat ''8.2'') = Finite 8199999999"
    by (simp add: floor_eq_iff)
  have "roundDouble (10 ^ 400) = Infinity" by (rule roundDouble_overflow) simp
  then show "parseFloat ''1e400'' = Infinity" by (simp add: parse_defs)
  have "roundDouble (1 / 10 ^ 400) = Finite 0" by (rule roundDouble_underflow) simp_all
  then show "parseFloat ''1e-400'' = Finite 0" by (simp add: parse_defs)
qed

subsection \<open>The monitoring loop, one poll at a time\<close>

lemma checkStatus_done:
  "fst (checkStatus p d t outcome s) = fulfilledOrFailed outcome"
  by (simp add: checkStatus_def fulfilledOrFailed_def Let_def split: sum.splits)

lemma checkStatus_schedule:
  "schedule (snd (snd (checkStatus p d t outcome s))) =
     [getBridgeStatus \<lparr>request_deposit_address = d\<rparr> t]"
  by (simp add: checkStatus_def schedule_def getBridgeStatus_def Let_def split: sum.splits)

lemma poll_stops:
  assumes "fulfilledOrFailed (outcomes (Suc a))" "Suc a < 60"
  shows "poll p d t outcomes a s = snd (checkStatus p d t (outcomes (Suc a)) s)"
proof -
  obtain b s1 es where c: "checkStatus p d t (outcomes (Suc a)) s = (b, s1, es)"
    by (cases "checkStatus p d t (outcomes (Suc a)) s") auto
  with checkStatus_done [of p d t "outcomes (Suc a)" s] assms(1) have "b" by simp
  with c assms(2) show ?thesis
    by (simp add: poll.simps [of p d t outcomes a s] maxAttempts_def)
qed

lemma poll_continues:
  assumes "\<not> fulfilledOrFailed (outcomes (Suc a))" "Suc a < 60"
  shows "poll p d t outcomes a s =
     (fst (poll p d t outcomes (Suc a) (fst (snd (checkStatus p d t (outcomes (Suc a)) s)))),
      snd (snd (checkStatus p d t (outcomes (Suc a)) s)) @ SetTimeout 5000 #
      snd (poll p d t outcomes (Suc a) (fst (snd (checkStatus p d t (outcomes (Suc a)) s)))))"
proof -
  obtain b s1 es where c: "checkStatus p d t (outcomes (Suc a)) s = (b, s1, es)"
    by (cases "checkStatus p d t (outcomes (Suc a)) s") auto
  with checkStatus_done [of p d t "outcomes (Suc a)" s] assms(1) have "\<not> b" by simp
  with c assms(2) show ?thesis
    by (simp add: poll.simps [of p d t outcomes a s] maxAttempts_def split: prod.splits)
qed

lemma poll_last:
  assumes "60 \<le> Suc a"
  shows "poll p d t outcomes a s =
     ((fst (snd (checkStatus p d t (outcomes (Suc a)) s)))
        \<lparr>error := Some (Literal ''Bridge monitoring timeout. Please check status manually.''),
         step := StepError\<rparr>,
      snd (snd (checkStatus p d t (outcomes (Suc a)) s)))"
proof -
  obtain b s1 es where c: "checkStatus p d t (outcomes (Suc a)) s = (b, s1, es)"
    by (cases "checkStatus p d t (outcomes (Suc a)) s") auto
  with assms show ?thesis
    by (simp add: poll.simps [of p d t outcomes a s] maxAttempts_def)
qed








section \<open>The monitoring loop\<close>




lemma checkStatus_not_done:
  assumes "\<not> fulfilledOrFailed outcome"
  shows "\<exists>bs. fst (snd (checkStatus p d t outcome s)) = s\<lparr>bridgeStatus := bs\<rparr>"
    and "filter isFetch (snd (snd (checkStatus p d t outcome s))) =
      [getBridgeStatus \<lparr>request_deposit_address = d\<rparr> t]"
    and "set (snd (snd (checkStatus p d t outcome s))) \<subseteq>
      {getBridgeStatus \<lparr>request_deposit_address = d\<rparr> t, SetTimeout 5000} \<union> range ConsoleError"
proof -
  show "\<exists>bs. fst (snd (checkStatus p d t outcome s)) = s\<lparr>bridgeStatus := bs\<rparr>"
  proof (cases "SolanaAPI_fetch outcome")
    case (Inl err)
    then have "fst (snd (checkStatus p d t outcome s)) = s\<lparr>bridgeStatus := bridgeStatus s\<rparr>"
      by (simp add: checkStatus_def)
    then show ?thesis by blast
  next
    case (Inr r)
    with assms have "fst (snd (checkStatus p d t outcome s)) = s\<lparr>bridgeStatus := Some r\<rparr>"
      by (simp add: checkStatus_def fulfilledOrFailed_def)
    then show ?thesis by blast
  qed
  show "filter isFetch (snd (snd (checkStatus p d t outcome s))) =
      [getBridgeStatus \<lparr>request_deposit_address = d\<rparr> t]"
    by (simp add: checkStatus_def getBridgeStatus_def Let_def split: sum.splits)
  show "set (snd (snd (checkStatus p d t outcome s))) \<subseteq>
      {getBridgeStatus \<lparr>request_deposit_address = d\<rparr> t, SetTimeout 5000} \<union> range ConsoleError"
    using assms
    by (auto simp: checkStatus_def fulfilledOrFailed_def Let_def split: sum.splits)
qed

lemma poll_exhausts:
  "a < 60 \<Longrightarrow> \<forall>i. a < i \<and> i \<le> 60 \<longrightarrow> \<not> fulfilledOrFailed (outcomes i) \<Longrightarrow>
   (\<exists>bs. fst (poll p d t outcomes a s) =
      s\<lparr>bridgeStatus := bs,
        error := Some (Literal ''Bridge monitoring timeout. Please check status manually.''),
        step := StepError\<rparr>) \<and>
   filter isFetch (snd (poll p d t outcomes a s)) =
     replicate (60 - a) (getBridgeStatus \<lparr>request_deposit_address = d\<rparr> t) \<and>
   set (snd (poll p d t outcomes a s)) \<subseteq>
     {getBridgeStatus \<lparr>request_deposit_address = d\<rparr> t, SetTimeout 5000} \<union> range ConsoleError"
proof (induction "59 - a" arbitrary: a s)
  case 0
  then have a: "a = 59" by simp
  with 0(3) have nt: "\<not> fulfilledOrFailed (outcomes (Suc a))" by simp
  from checkStatus_not_done(1) [OF nt, of p d t s]
  obtain bs where bs: "fst (snd (checkStatus p d t (outcomes (Suc a)) s)) = s\<lparr>bridgeStatus := bs\<rparr>"
    by blast
  have "fst (poll p d t outcomes a s) =
      s\<lparr>bridgeStatus := bs,
        error := Some (Literal ''Bridge monitoring timeout. Please check status manually.''),
        step := StepError\<rparr>"
    using a bs by (simp add: poll_last)
  moreover have "filter isFetch (snd (poll p d t outcomes a s)) =
     replicate (60 - a) (getBridgeStatus \<lparr>request_deposit_address = d\<rparr> t)"
    using a checkStatus_not_done(2) [OF nt, of p d t s] by (simp add: poll_last)
  moreover have "set (snd (poll p d t outcomes a s)) \<subseteq>
     {getBridgeStatus \<lparr>request_deposit_address = d\<rparr> t, SetTimeout 5000} \<union> range ConsoleError"
    using a checkStatus_not_done(3) [OF nt, of p d t s] by (simp add: poll_last)
  ultimately show ?case by blast
next
  case (Suc k)
  then have a: "Suc a < 60" by simp
  with Suc(4) have nt: "\<not> fulfilledOrFailed (outcomes (Suc a))" by simp
  let ?s1 = "fst (snd (checkStatus p d t (outcomes (Suc a)) s))"
  from checkStatus_not_done(1) [OF nt, of p d t s]
  obtain bs where bs: "?s1 = s\<lparr>bridgeStatus := bs\<rparr>"
    by blast
  have k: "k = 59 - Suc a" using Suc(2) by arith
  have rest: "\<forall>i. Suc a < i \<and> i \<le> 60 \<longrightarrow> \<not> fulfilledOrFailed (outcomes i)"
    using Suc(4) by simp
  from Suc(1) [OF k a rest, of ?s1]
  obtain bs' where ih:
    "fst (poll p d t outcomes (Suc a) ?s1) =
       ?s1\<lparr>bridgeStatus := bs',
         error := Some (Literal ''Bridge monitoring timeout. Please check status manually.''),
         step := StepError\<rparr>"
    "filter isFetch (snd (poll p d t outcomes (Suc a) ?s1)) =
       replicate (60 - Suc a) (getBridgeStatus \<lparr>request_deposit_address = d\<rparr> t)"
    "set (snd (poll p d t outcomes (Suc a) ?s1)) \<subseteq>
       {getBridgeStatus \<lparr>request_deposit_address = d\<rparr> t, SetTimeout 5000} \<union> range ConsoleError"
    by blast
  have "fst (poll p d t outcomes a s) =
      s\<lparr>bridgeStatus := bs',
        error := Some (Literal ''Bridge monitoring timeout. Please check status manually.''),
        step := StepError\<rparr>"
    using nt a ih(1) bs by (simp add: poll_continues)
  moreover have "filter isFetch (snd (poll p d t outcomes a s)) =
     replicate (60 - a) (getBridgeStatus \<lparr>request_deposit_address = d\<rparr> t)"
  proof -
    have "60 - a = Suc (60 - Suc a)" using a by arith
    then show ?thesis
      using nt a ih(2) checkStatus_not_done(2) [OF nt, of p d t s]
      by (simp add: poll_continues)
  qed
  moreover have "set (snd (poll p d t outcomes a s)) \<subseteq>
     {getBridgeStatus \<lparr>request_deposit_address = d\<rparr> t, SetTimeout 5000} \<union> range ConsoleError"
    using nt a ih(3) checkStatus_not_done(3) [OF nt, of p d t s]
    by (simp add: poll_continues)
  ultimately show ?case by blast
qed


text \<open>
  C4. When none of the 60 polls has an outcome that \<open>checkStatus\<close> reports as done,
  the loop ends by writing the timeout message and the error step into the modal's
  own state; apart from the last displayed status no other field of the state
  differs from the start. Its requests are exactly 60 status requests for the
  deposit address, and besides them it only sets timers of 5000 ms and logs thrown
  values to the console: it sends the backend nothing that writes, so nothing marks
  the ledger row \<^verbatim>\<open>FAILED\<close>.
\<close>

theorem monitoring_timeout_only_ui:
  assumes "\<forall>i. 1 \<le> i \<and> i \<le> 60 \<longrightarrow> \<not> fulfilledOrFailed (outcomes i)"
  shows
    "(\<exists>bs. fst (startMonitoring p depositAddress accessToken outcomes s) =
        s\<lparr>bridgeStatus := bs,
          error := Some (Literal ''Bridge monitoring timeout. Please check status manually.''),
          step := StepError\<rparr>) \<and>
     filter isFetch (snd (startMonitoring p depositAddress accessToken outcomes s)) =
       replicate 60 (getBridgeStatus \<lparr>request_deposit_address = depositAddress\<rparr> accessToken) \<and>
     set (snd (startMonitoring p depositAddress accessToken outcomes s)) \<subseteq>
       {getBridgeStatus \<lparr>request_deposit_address = depositAddress\<rparr> accessToken, SetTimeout 5000}
       \<union> range ConsoleError"
proof -
  have "\<forall>i. 0 < i \<and> i \<le> 60 \<longrightarrow> \<not> fulfilledOrFailed (outcomes i)"
    using assms by simp
  from poll_exhausts [OF _ this, of p depositAddress accessToken s]
  show ?thesis by (simp add: startMonitoring_def)
qed

theorem monitoring_timeout_only_ui_witness:
  "step (fst (startMonitoring (exampleProps (Finite 1)) ''D1'' ''token'' neverSettles monitoringState))
     = StepError \<and>
   error (fst (startMonitoring (exampleProps (Finite 1)) ''D1'' ''token'' neverSettles monitoringState))
     = Some (Literal ''Bridge monitoring timeout. Please check status manually.'') \<and>
   filter isFetch (snd (startMonitoring (exampleProps (Finite 1)) ''D1'' ''token'' neverSettles
     monitoringState)) = replicate 60 statusRequest"
proof -
  have h: "\<forall>i. 1 \<le> i \<and> i \<le> 60 \<longrightarrow> \<not> fulfilledOrFailed (neverSettles i)"
    by (simp add: neverSettles_def fulfilledOrFailed_def statusResponse_def)
  from monitoring_timeout_only_ui [OF h, of "exampleProps (Finite 1)" "''D1''" "''token''"
      monitoringState]
  show ?thesis by (auto simp: statusRequest_def)
qed

lemma fetch_statusResponse:
  "SolanaAPI_fetch (statusResponse st) = Inr \<lparr>status = st, updatedAt = None, swapDetails = None\<rparr>"
  by (simp add: statusResponse_def)

lemma fulfilledOrFailed_statusResponse:
  "fulfilledOrFailed (statusResponse st) =
     (st = ''COMPLETED'' \<or> st = ''SUCCESS'' \<or> st = ''FAILED'' \<or> st = ''ERROR'')"
  by (simp add: fulfilledOrFailed_def fetch_statusResponse)

text \<open>
  C2, as amended. Take a poll whose status request returns a response. When the poll
  is not the last of the budget (fewer than 60 attempts once it is counted): a status
  \<^verbatim>\<open>COMPLETED\<close> or \<^verbatim>\<open>SUCCESS\<close> ends monitoring in the success step, with no timer
  set; a status \<^verbatim>\<open>FAILED\<close> or \<^verbatim>\<open>ERROR\<close> ends it in the error step with the message
  \<^verbatim>\<open>Bridge transaction failed\<close>; and any status other than these four and
  \<^verbatim>\<open>REFUNDED\<close> changes only the last displayed status, leaves the step as it is and
  schedules the next poll after 5000 ms. When the poll is the 60th, monitoring ends
  whatever the status: no timer follows its request. What a \<^verbatim>\<open>REFUNDED\<close> status
  does, and which step the 60th poll ends in, is not part of the statement.
\<close>

theorem poll_maps_status:
  assumes "SolanaAPI_fetch (outcomes (attempts + 1)) = Inr r"
  shows
    "(attempts + 1 < 60 \<and> (status r = ''COMPLETED'' \<or> status r = ''SUCCESS'') \<longrightarrow>
        poll p depositAddress accessToken outcomes attempts s =
          (s\<lparr>bridgeStatus := Some r, step := StepSuccess\<rparr>,
           getBridgeStatus \<lparr>request_deposit_address = depositAddress\<rparr> accessToken #
           (if hasOnSuccess p then [OnSuccess] else []))) \<and>
     (attempts + 1 < 60 \<and> (status r = ''FAILED'' \<or> status r = ''ERROR'') \<longrightarrow>
        poll p depositAddress accessToken outcomes attempts s =
          (s\<lparr>bridgeStatus := Some r, error := Some (Literal ''Bridge transaction failed''),
             step := StepError\<rparr>,
           [getBridgeStatus \<lparr>request_deposit_address = depositAddress\<rparr> accessToken])) \<and>
     (attempts + 1 < 60 \<and>
      status r \<notin> set [''COMPLETED'', ''SUCCESS'', ''FAILED'', ''ERROR'', ''REFUNDED''] \<longrightarrow>
        poll p depositAddress accessToken outcomes attempts s =
          (fst (poll p depositAddress accessToken outcomes (attempts + 1)
                  (s\<lparr>bridgeStatus := Some r\<rparr>)),
           getBridgeStatus \<lparr>request_deposit_address = depositAddress\<rparr> accessToken #
           SetTimeout 5000 #
           snd (poll p depositAddress accessToken outcomes (attempts + 1)
                  (s\<lparr>bridgeStatus := Some r\<rparr>)))) \<and>
     (attempts + 1 = 60 \<longrightarrow>
        schedule (snd (poll p depositAddress accessToken outcomes attempts s)) =
          [getBridgeStatus \<lparr>request_deposit_address = depositAddress\<rparr> accessToken])"
proof (intro conjI impI)
  assume "attempts + 1 < 60 \<and> (status r = ''COMPLETED'' \<or> status r = ''SUCCESS'')"
  then have b: "Suc attempts < 60" and st: "status r = ''COMPLETED'' \<or> status r = ''SUCCESS''"
    by simp_all
  from st assms have "fulfilledOrFailed (outcomes (Suc attempts))"
    by (auto simp: fulfilledOrFailed_def)
  with b have "poll p depositAddress accessToken outcomes attempts s =
      snd (checkStatus p depositAddress accessToken (outcomes (Suc attempts)) s)"
    by (simp add: poll_stops)
  with st assms show "poll p depositAddress accessToken outcomes attempts s =
          (s\<lparr>bridgeStatus := Some r, step := StepSuccess\<rparr>,
           getBridgeStatus \<lparr>request_deposit_address = depositAddress\<rparr> accessToken #
           (if hasOnSuccess p then [OnSuccess] else []))"
    by (auto simp: checkStatus_def)
next
  assume "attempts + 1 < 60 \<and> (status r = ''FAILED'' \<or> status r = ''ERROR'')"
  then have b: "Suc attempts < 60" and st: "status r = ''FAILED'' \<or> status r = ''ERROR''"
    by simp_all
  from st assms have "fulfilledOrFailed (outcomes (Suc attempts))"
    by (auto simp: fulfilledOrFailed_def)
  with b have "poll p depositAddress accessToken outcomes attempts s =
      snd (checkStatus p depositAddress accessToken (outcomes (Suc attempts)) s)"
    by (simp add: poll_stops)
  with st assms show "poll p depositAddress accessToken outcomes attempts s =
          (s\<lparr>bridgeStatus := Some r, error := Some (Literal ''Bridge transaction failed''),
             step := StepError\<rparr>,
           [getBridgeStatus \<lparr>request_deposit_address = depositAddress\<rparr> accessToken])"
    by (auto simp: checkStatus_def)
next
  assume "attempts + 1 < 60 \<and>
      status r \<notin> set [''COMPLETED'', ''SUCCESS'', ''FAILED'', ''ERROR'', ''REFUNDED'']"
  then have b: "Suc attempts < 60"
    and st: "status r \<notin> set [''COMPLETED'', ''SUCCESS'', ''FAILED'', ''ERROR'', ''REFUNDED'']"
    by simp_all
  from st assms have nt: "\<not> fulfilledOrFailed (outcomes (Suc attempts))"
    by (auto simp: fulfilledOrFailed_def)
  from st assms have c: "checkStatus p depositAddress accessToken (outcomes (Suc attempts)) s =
      (False, s\<lparr>bridgeStatus := Some r\<rparr>,
       [getBridgeStatus \<lparr>request_deposit_address = depositAddress\<rparr> accessToken])"
    by (auto simp: checkStatus_def)
  from poll_continues [of outcomes attempts p depositAddress accessToken s, OF nt b] c
  show "poll p depositAddress accessToken outcomes attempts s =
          (fst (poll p depositAddress accessToken outcomes (attempts + 1)
                  (s\<lparr>bridgeStatus := Some r\<rparr>)),
           getBridgeStatus \<lparr>request_deposit_address = depositAddress\<rparr> accessToken #
           SetTimeout 5000 #
           snd (poll p depositAddress accessToken outcomes (attempts + 1)
                  (s\<lparr>bridgeStatus := Some r\<rparr>)))"
    by simp
next
  assume "attempts + 1 = 60"
  then have "60 \<le> Suc attempts" by simp
  from poll_last [of attempts p depositAddress accessToken outcomes s, OF this]
  show "schedule (snd (poll p depositAddress accessToken outcomes attempts s)) =
      [getBridgeStatus \<lparr>request_deposit_address = depositAddress\<rparr> accessToken]"
    by (simp add: checkStatus_schedule)
qed

theorem poll_maps_status_witness:
  "poll (exampleProps (Finite 1)) ''D1'' ''token'' (alwaysStatus ''SUCCESS'') 0 monitoringState =
     (monitoringState
        \<lparr>bridgeStatus := Some \<lparr>status = ''SUCCESS'', updatedAt = None, swapDetails = None\<rparr>,
         step := StepSuccess\<rparr>,
      [statusRequest, OnSuccess]) \<and>
   poll (exampleProps (Finite 1)) ''D1'' ''token'' (alwaysStatus ''FAILED'') 0 monitoringState =
     (monitoringState
        \<lparr>bridgeStatus := Some \<lparr>status = ''FAILED'', updatedAt = None, swapDetails = None\<rparr>,
         error := Some (Literal ''Bridge transaction failed''), step := StepError\<rparr>,
      [statusRequest]) \<and>
   poll (exampleProps (Finite 1)) ''D1'' ''token'' (alwaysStatus ''PROCESSING'') 0 monitoringState =
     (fst (poll (exampleProps (Finite 1)) ''D1'' ''token'' (alwaysStatus ''PROCESSING'') 1
        (monitoringState
           \<lparr>bridgeStatus := Some \<lparr>status = ''PROCESSING'', updatedAt = None, swapDetails = None\<rparr>\<rparr>)),
      statusRequest # SetTimeout 5000 #
      snd (poll (exampleProps (Finite 1)) ''D1'' ''token'' (alwaysStatus ''PROCESSING'') 1
        (monitoringState
           \<lparr>bridgeStatus := Some \<lparr>status = ''PROCESSING'', updatedAt = None, swapDetails = None\<rparr>\<rparr>))) \<and>
   schedule (snd (poll (exampleProps (Finite 1)) ''D1'' ''token'' (alwaysStatus ''PROCESSING'') 59
     monitoringState)) = [statusRequest]"
proof -
  have f: "SolanaAPI_fetch (alwaysStatus st (n + 1)) =
      Inr \<lparr>status = st, updatedAt = None, swapDetails = None\<rparr>" for st n
    by (simp add: alwaysStatus_def fetch_statusResponse)
  from poll_maps_status [of "alwaysStatus ''SUCCESS''" 0 _ "exampleProps (Finite 1)" "''D1''"
      "''token''" monitoringState, OF f]
    poll_maps_status [of "alwaysStatus ''FAILED''" 0 _ "exampleProps (Finite 1)" "''D1''"
      "''token''" monitoringState, OF f]
    poll_maps_status [of "alwaysStatus ''PROCESSING''" 0 _ "exampleProps (Finite 1)" "''D1''"
      "''token''" monitoringState, OF f]
    poll_maps_status [of "alwaysStatus ''PROCESSING''" 59 _ "exampleProps (Finite 1)" "''D1''"
      "''token''" monitoringState, OF f]
  show ?thesis by (simp add: statusRequest_def exampleProps_def)
qed

text \<open>
  C2 as first stated fails at two inputs. A first poll that returns \<^verbatim>\<open>REFUNDED\<close>
  does not end monitoring: a timer is set and a second status request follows. And
  the 60th poll ends monitoring, in the error step with the timeout message, although
  the status it returned is the in-progress value \<^verbatim>\<open>PROCESSING\<close>.
\<close>

theorem refund_and_last_poll_counterexample:
  "snd (startMonitoring (exampleProps (Finite 1)) ''D1'' ''token'' refundedThenSuccess monitoringState)
     = [statusRequest, SetTimeout 5000, statusRequest, OnSuccess] \<and>
   poll (exampleProps (Finite 1)) ''D1'' ''token'' (alwaysStatus ''PROCESSING'') 59 monitoringState =
     (monitoringState
        \<lparr>bridgeStatus := Some \<lparr>status = ''PROCESSING'', updatedAt = None, swapDetails = None\<rparr>,
         error := Some (Literal ''Bridge monitoring timeout. Please check status manually.''),
         step := StepError\<rparr>,
      [statusRequest])"
proof -
  have 1: "\<not> fulfilledOrFailed (refundedThenSuccess (Suc 0))"
    by (simp add: refundedThenSuccess_def fulfilledOrFailed_statusResponse)
  have 2: "fulfilledOrFailed (refundedThenSuccess (Suc (Suc 0)))"
    by (simp add: refundedThenSuccess_def fulfilledOrFailed_statusResponse)
  have "snd (startMonitoring (exampleProps (Finite 1)) ''D1'' ''token'' refundedThenSuccess
      monitoringState) = [statusRequest, SetTimeout 5000, statusRequest, OnSuccess]"
    unfolding startMonitoring_def
    by (simp add: poll_continues [of refundedThenSuccess 0, OF 1]
        poll_stops [of refundedThenSuccess "Suc 0", OF 2])
      (simp add: checkStatus_def refundedThenSuccess_def fetch_statusResponse statusRequest_def
        exampleProps_def)
  moreover have "poll (exampleProps (Finite 1)) ''D1'' ''token'' (alwaysStatus ''PROCESSING'') 59
      monitoringState =
     (monitoringState
        \<lparr>bridgeStatus := Some \<lparr>status = ''PROCESSING'', updatedAt = None, swapDetails = None\<rparr>,
         error := Some (Literal ''Bridge monitoring timeout. Please check status manually.''),
         step := StepError\<rparr>,
      [statusRequest])"
    by (simp add: poll_last checkStatus_def alwaysStatus_def fetch_statusResponse statusRequest_def)
  ultimately show ?thesis by simp
qed

text \<open>
  C9. When the status request of a poll throws, by a network failure (\<^verbatim>\<open>fetch\<close>
  rejects) or by a response that is not OK, \<open>checkStatus\<close> reports not done, logs the
  thrown value and leaves the whole state as it was: the step and the last displayed
  status are unchanged. The poll is counted: while fewer than 60 attempts are used,
  the next poll is scheduled after 5000 ms and runs with the counter one higher and
  the same state; when the failed poll is the 60th, monitoring ends with the timeout
  message of the exhausted budget, not with a failure of its own.
\<close>

theorem failed_status_request_counts:
  assumes "outcomes (attempts + 1) = Rejected e \<or> outcomes (attempts + 1) = NotOk code b"
  shows
    "\<exists>err. SolanaAPI_fetch (outcomes (attempts + 1)) = Inl err \<and>
       checkStatus p depositAddress accessToken (outcomes (attempts + 1)) s =
         (False, s,
          [getBridgeStatus \<lparr>request_deposit_address = depositAddress\<rparr> accessToken,
           ConsoleError err]) \<and>
       (attempts + 1 < 60 \<longrightarrow>
          poll p depositAddress accessToken outcomes attempts s =
            (fst (poll p depositAddress accessToken outcomes (attempts + 1) s),
             getBridgeStatus \<lparr>request_deposit_address = depositAddress\<rparr> accessToken #
             ConsoleError err # SetTimeout 5000 #
             snd (poll p depositAddress accessToken outcomes (attempts + 1) s))) \<and>
       (attempts + 1 = 60 \<longrightarrow>
          poll p depositAddress accessToken outcomes attempts s =
            (s\<lparr>error := Some (Literal ''Bridge monitoring timeout. Please check status manually.''),
               step := StepError\<rparr>,
             [getBridgeStatus \<lparr>request_deposit_address = depositAddress\<rparr> accessToken,
              ConsoleError err]))"
proof -
  from assms obtain err where err: "SolanaAPI_fetch (outcomes (attempts + 1)) = Inl err"
    by (auto simp: Let_def)
  then have c: "checkStatus p depositAddress accessToken (outcomes (Suc attempts)) s =
      (False, s,
       [getBridgeStatus \<lparr>request_deposit_address = depositAddress\<rparr> accessToken, ConsoleError err])"
    by (simp add: checkStatus_def)
  from err have nt: "\<not> fulfilledOrFailed (outcomes (Suc attempts))"
    by (simp add: fulfilledOrFailed_def)
  have "poll p depositAddress accessToken outcomes attempts s =
            (fst (poll p depositAddress accessToken outcomes (attempts + 1) s),
             getBridgeStatus \<lparr>request_deposit_address = depositAddress\<rparr> accessToken #
             ConsoleError err # SetTimeout 5000 #
             snd (poll p depositAddress accessToken outcomes (attempts + 1) s))"
    if "attempts + 1 < 60"
  proof -
    from that have "Suc attempts < 60" by simp
    from poll_continues [of outcomes attempts p depositAddress accessToken s, OF nt this] c
    show ?thesis by simp
  qed
  moreover have "poll p depositAddress accessToken outcomes attempts s =
            (s\<lparr>error := Some (Literal ''Bridge monitoring timeout. Please check status manually.''),
               step := StepError\<rparr>,
             [getBridgeStatus \<lparr>request_deposit_address = depositAddress\<rparr> accessToken,
              ConsoleError err])"
    if "attempts + 1 = 60"
  proof -
    from that have "60 \<le> Suc attempts" by simp
    from poll_last [of attempts p depositAddress accessToken outcomes s, OF this] c
    show ?thesis by simp
  qed
  ultimately show ?thesis using err c by auto
qed

theorem failed_status_request_counts_witness:
  "checkStatus (exampleProps (Finite 1)) ''D1'' ''token'' (serverError (0 + 1)) monitoringState =
     (False, monitoringState, [statusRequest, ConsoleError (Error (HttpStatus 500))]) \<and>
   poll (exampleProps (Finite 1)) ''D1'' ''token'' serverError 0 monitoringState =
     (fst (poll (exampleProps (Finite 1)) ''D1'' ''token'' serverError (0 + 1) monitoringState),
      statusRequest # ConsoleError (Error (HttpStatus 500)) # SetTimeout 5000 #
      snd (poll (exampleProps (Finite 1)) ''D1'' ''token'' serverError (0 + 1) monitoringState))"
proof -
  have h: "serverError (0 + 1) = Rejected NotAnError \<or> serverError (0 + 1) = NotOk 500 (Parsed None)"
    by (simp add: serverError_def)
  have e: "SolanaAPI_fetch (serverError (0 + 1)) = Inl (Error (HttpStatus 500))"
    by (simp add: serverError_def)
  from failed_status_request_counts [of serverError 0 NotAnError 500 "Parsed None"
      "exampleProps (Finite 1)" "''D1''" "''token''" monitoringState, OF h] e
  show ?thesis by (auto simp: statusRequest_def)
qed

lemma violation_append:
  "violation users tbl = None \<Longrightarrow>
   violation users (tbl @ [r]) =
     (if col_id r \<in> col_id ` set tbl then Some (UniqueViolation ''bridge_transactions_pkey'')
      else if col_user_id r \<notin> set users then
        Some (ForeignKeyViolation ''bridge_transactions_user_id_fkey'')
      else None)"
  by (auto simp: violation_def split: if_splits)

section \<open>Quote and execute\<close>

text \<open>
  C7. Every run of the quote flow performs at most one operation against the backend,
  and that operation is the quote request: a POST to \<^verbatim>\<open>/solana/bridge/quote\<close> with the
  amount and the recipient. No execute request, no status request and no other request
  is sent, and the modal's record of a bridge (its execute result and its bridge
  status) is left as it was.
\<close>

theorem quote_flow_only_quote_request:
  "(snd (handleGetQuote p stored outcome s) = [] \<or>
    snd (handleGetQuote p stored outcome s) =
      [Fetch ''/solana/bridge/quote'' (accessTokenOf stored)
         (QuoteBody \<lparr>amount_lamports = toLamports (parseFloat (amount s)),
                     recipient_zcash_address = zcashAddress p\<rparr>)]) \<and>
   bridgeResult (fst (handleGetQuote p stored outcome s)) = bridgeResult s \<and>
   bridgeStatus (fst (handleGetQuote p stored outcome s)) = bridgeStatus s"
  by (auto simp: handleGetQuote_def handleGetQuote_begin_def handleGetQuote_resume_def
      getBridgeQuote_def Let_def split: sum.splits)

text \<open>
  C5, as amended. Execute applies none of the amount checks of the quote operation.
  It sends its request exactly when a quote is held and the amount string is not
  empty, with the amount converted from the string as it is, and whether it sends
  does not depend on the available balance. The checks (numeric, positive, not above
  the balance) are applied by the quote operation only, which sends its request
  exactly when the amount string is not empty and passes all three.
\<close>

theorem execute_guards_quote_and_amount_only:
  "(snd (handleExecuteBridge_begin p stored s) \<noteq> []) = (quote s \<noteq> None \<and> amount s \<noteq> []) \<and>
   snd (handleExecuteBridge_begin p stored s) =
     (if quote s = None \<or> amount s = [] then []
      else [Fetch ''/solana/bridge/execute'' (accessTokenOf stored)
              (ExecuteBody \<lparr>amount_lamports = toLamports (parseFloat (amount s)),
                            recipient_zcash_address = zcashAddress p\<rparr>)]) \<and>
   snd (handleExecuteBridge_begin (p\<lparr>currentBalance := b\<rparr>) stored s) =
     snd (handleExecuteBridge_begin p stored s) \<and>
   (snd (handleGetQuote_begin p stored s) \<noteq> []) =
     (amount s \<noteq> [] \<and> \<not> isNaN (parseFloat (amount s)) \<and>
      \<not> num_less_eq (parseFloat (amount s)) (Finite 0) \<and>
      \<not> num_greater (parseFloat (amount s)) (currentBalance p))"
  by (simp add: handleExecuteBridge_begin_def handleGetQuote_begin_def executeBridge_def Let_def)

text \<open>
  C5 as first stated fails when a quote is held for the amount \<^verbatim>\<open>5\<close> and the balance
  is 1: the quote operation's checks reject this input (insufficient balance), and
  execute sends its request for 5000000000 lamports.
\<close>

theorem execute_without_checks_counterexample:
  "snd (handleGetQuote_begin (exampleProps (Finite 1)) None (quotedState ''5'')) = [] \<and>
   error (fst (handleGetQuote_begin (exampleProps (Finite 1)) None (quotedState ''5''))) =
     Some (InsufficientBalance (Finite 1)) \<and>
   snd (handleExecuteBridge_begin (exampleProps (Finite 1)) None (quotedState ''5'')) =
     [Fetch ''/solana/bridge/execute'' []
        (ExecuteBody \<lparr>amount_lamports = Finite 5000000000,
                      recipient_zcash_address = ''u1recipient''\<rparr>)]"
  by (simp add: handleGetQuote_begin_def handleExecuteBridge_begin_def quotedState_def
      exampleProps_def parseFloat_examples toLamports_examples num_less_eq_def num_greater_def
      executeBridge_def accessTokenOf_def)

text \<open>
  C6. A request must carry a positive integer amount of lamports. The code at the
  amount string \<^verbatim>\<open>0.0000000005\<close> with a balance of 1: the string passes the three
  checks (it parses to a number above zero and not above the balance), and the quote
  request and the execute request both carry \<^verbatim>\<open>amount_lamports = 0\<close>.
\<close>

theorem sub_lamport_amount_requests_zero:
  "snd (handleGetQuote_begin (exampleProps (Finite 1)) None
          (initialState\<lparr>amount := ''0.0000000005''\<rparr>)) =
     [Fetch ''/solana/bridge/quote'' []
        (QuoteBody \<lparr>amount_lamports = Finite 0, recipient_zcash_address = ''u1recipient''\<rparr>)] \<and>
   snd (handleExecuteBridge_begin (exampleProps (Finite 1)) None (quotedState ''0.0000000005'')) =
     [Fetch ''/solana/bridge/execute'' []
        (ExecuteBody \<lparr>amount_lamports = Finite 0, recipient_zcash_address = ''u1recipient''\<rparr>)]"
  by (simp add: handleGetQuote_begin_def handleExecuteBridge_begin_def quotedState_def
      initialState_def exampleProps_def parseFloat_examples toLamports_examples num_less_eq_def
      num_greater_def getBridgeQuote_def executeBridge_def accessTokenOf_def)

text \<open>
  An amount that underflows is rejected, and one that rounds is converted as the
  doubles give it: \<^verbatim>\<open>1e-400\<close> parses to zero and fails the second check, and
  \<^verbatim>\<open>8.2\<close> with a balance of 10 is quoted for 8199999999 lamports.
\<close>

lemma rounded_amounts:
  "handleGetQuote_begin (exampleProps (Finite 10)) None (initialState\<lparr>amount := ''1e-400''\<rparr>) =
     (initialState\<lparr>amount := ''1e-400'', error := Some (Literal ''Please enter a valid amount'')\<rparr>,
      [])"
  "quotedAmounts (snd (handleGetQuote_begin (exampleProps (Finite 10)) None
     (initialState\<lparr>amount := ''8.2''\<rparr>))) = [Finite 8199999999]"
proof -
  show "handleGetQuote_begin (exampleProps (Finite 10)) None (initialState\<lparr>amount := ''1e-400''\<rparr>) =
     (initialState\<lparr>amount := ''1e-400'', error := Some (Literal ''Please enter a valid amount'')\<rparr>,
      [])"
    by (simp add: handleGetQuote_begin_def parseFloat_rounds num_less_eq_def initialState_def)
  have "handleGetQuote_begin (exampleProps (Finite 10)) None (initialState\<lparr>amount := ''8.2''\<rparr>) =
     (initialState\<lparr>amount := ''8.2'', isLoading := True, error := None\<rparr>,
      [getBridgeQuote
         \<lparr>amount_lamports = toLamports (parseFloat ''8.2''),
          recipient_zcash_address = ''u1recipient''\<rparr> []])"
    by (simp add: handleGetQuote_begin_def parseFloat_rounds(1) num_less_eq_def num_greater_def
        initialState_def exampleProps_def accessTokenOf_def Let_def)
  then show "quotedAmounts (snd (handleGetQuote_begin (exampleProps (Finite 10)) None
     (initialState\<lparr>amount := ''8.2''\<rparr>))) = [Finite 8199999999]"
    by (simp add: getBridgeQuote_def parseFloat_rounds(2))
qed

text \<open>
  C10. The amount executed must equal the amount quoted. The code on these events:
  the user enters \<^verbatim>\<open>1\<close> and clicks Get Quote, enters \<^verbatim>\<open>2\<close> while the quote request is
  pending, the quote arrives, and the user clicks Execute Bridge. Before the last
  click the modal is in the quote step and shows the quote; the quote request carried
  1000000000 lamports and the execute request carries 2000000000.
\<close>

theorem executed_differs_from_quoted:
  "step (modal (run (exampleProps (Finite 10)) (Some ''token'') (butlast editWhileQuoting))) =
     StepQuote \<and>
   quote (modal (run (exampleProps (Finite 10)) (Some ''token'') (butlast editWhileQuoting))) =
     Some exampleQuote \<and>
   quotedAmounts (effects (run (exampleProps (Finite 10)) (Some ''token'') editWhileQuoting)) =
     [Finite 1000000000] \<and>
   executedAmounts (effects (run (exampleProps (Finite 10)) (Some ''token'') editWhileQuoting)) =
     [Finite 2000000000]"
  by (simp add: run_def editWhileQuoting_def initialPage_def initialState_def exampleProps_def
      handleGetQuote_begin_def handleGetQuote_resume_def handleExecuteBridge_begin_def
      parseFloat_examples toLamports_examples num_less_eq_def num_greater_def
      getBridgeQuote_def executeBridge_def accessTokenOf_def)

lemma lastQuoted_append:
  "lastQuoted acc (es @ es') = lastQuoted (lastQuoted acc es) es'"
  by (induction acc es rule: lastQuoted.induct) simp_all

lemma executesAsQuoted_append:
  "executesAsQuoted acc (es @ es') =
     (executesAsQuoted acc es \<and> executesAsQuoted (lastQuoted acc es) es')"
  by (induction acc es rule: executesAsQuoted.induct) simp_all

lemma neutral_lastQuoted: "list_all neutral es \<Longrightarrow> lastQuoted acc es = acc"
  by (induction acc es rule: lastQuoted.induct) simp_all

lemma neutral_executesAsQuoted: "list_all neutral es \<Longrightarrow> executesAsQuoted acc es"
  by (induction acc es rule: executesAsQuoted.induct) simp_all

lemma checkStatus_neutral: "list_all neutral (snd (snd (checkStatus p d t outcome s)))"
  by (simp add: checkStatus_def getBridgeStatus_def Let_def split: sum.splits)

lemma checkStatus_step:
  "fulfilledOrFailed outcome \<Longrightarrow>
   step (fst (snd (checkStatus p d t outcome s))) \<in> {StepSuccess, StepError}"
  by (auto simp: checkStatus_def fulfilledOrFailed_def Let_def split: sum.splits)

lemma poll_neutral_and_step:
  "list_all neutral (snd (poll p d t outcomes a s)) \<and>
   step (fst (poll p d t outcomes a s)) \<in> {StepSuccess, StepError}"
proof (induction "60 - a" arbitrary: a s)
  case 0
  then have "60 \<le> Suc a" by simp
  from poll_last [of a p d t outcomes s, OF this] show ?case
    by (simp add: checkStatus_neutral)
next
  case (Suc k)
  show ?case
  proof (cases "Suc a < 60")
    case False
    then have "60 \<le> Suc a" by simp
    from poll_last [of a p d t outcomes s, OF this] show ?thesis
      by (simp add: checkStatus_neutral)
  next
    case True
    show ?thesis
    proof (cases "fulfilledOrFailed (outcomes (Suc a))")
      case t: True
      from poll_stops [of outcomes a p d t s, OF t True] show ?thesis
        using checkStatus_step [OF t, of p d t s] by (simp add: checkStatus_neutral)
    next
      case f: False
      have k: "k = 60 - Suc a" using Suc(2) by arith
      from Suc(1) [OF k, of "fst (snd (checkStatus p d t (outcomes (Suc a)) s))"]
        poll_continues [of outcomes a p d t s, OF f True]
      show ?thesis by (simp add: checkStatus_neutral)
    qed
  qed
qed

lemma consistent_initial: "consistent initialPage"
  by (simp add: consistent_def initialPage_def initialState_def)

lemma consistent_fire:
  assumes "consistent g" and "\<And>v. e = Change v \<Longrightarrow> pending g \<noteq> QuotePending"
  shows "consistent (fire p stored g e)"
proof (cases e)
  case (Change v)
  with assms show ?thesis by (auto simp: consistent_def)
next
  case ClickGetQuote
  with assms(1) show ?thesis
    by (auto simp: consistent_def handleGetQuote_begin_def Let_def getBridgeQuote_def
        lastQuoted_append executesAsQuoted_append split: if_splits)
next
  case (QuoteSettles outcome)
  with assms(1) show ?thesis
    by (auto simp: consistent_def handleGetQuote_resume_def split: sum.splits)
next
  case ClickBack
  with assms(1) show ?thesis by (auto simp: consistent_def handleBack_def)
next
  case ClickExecute
  with assms(1) show ?thesis
    by (auto simp: consistent_def handleExecuteBridge_begin_def executeBridge_def
        lastQuoted_append executesAsQuoted_append split: if_splits)
next
  case (ExecuteSettles outcome outcomes)
  show ?thesis
  proof (cases "pending g")
    case (ExecutePending tok)
    show ?thesis
    proof (cases "SolanaAPI_fetch outcome")
      case (Inl err)
      with assms(1) ExecuteSettles ExecutePending show ?thesis
        by (auto simp: consistent_def handleExecuteBridge_resume_def)
    next
      case (Inr r)
      let ?s1 = "(modal g)\<lparr>bridgeResult := Some r, step := StepMonitoring, isLoading := False\<rparr>"
      obtain s2 es where m: "startMonitoring p (deposit_address r) tok outcomes ?s1 = (s2, es)"
        by (cases "startMonitoring p (deposit_address r) tok outcomes ?s1") auto
      with poll_neutral_and_step [of p "deposit_address r" tok outcomes 0 ?s1]
      have n: "list_all neutral es" "step s2 \<in> {StepSuccess, StepError}"
        by (simp_all add: startMonitoring_def)
      from Inr m ExecuteSettles ExecutePending
      have f: "fire p stored g e = g\<lparr>modal := s2, pending := NoRequest, effects := effects g @ es\<rparr>"
        by (simp add: handleExecuteBridge_resume_def)
      from assms(1) n show ?thesis
        unfolding f
        by (auto simp: consistent_def lastQuoted_append executesAsQuoted_append
            neutral_lastQuoted neutral_executesAsQuoted)
    qed
  qed (use assms(1) ExecuteSettles in auto)
next
  case ClickClose
  with assms(1) show ?thesis
    by (auto simp: consistent_def handleClose_def lastQuoted_append executesAsQuoted_append
        split: if_splits)
qed

lemma consistent_run:
  "consistent g \<Longrightarrow> noEditWhileQuoting p stored g evs \<Longrightarrow>
   consistent (foldl (fire p stored) g evs)"
proof (induction evs arbitrary: g)
  case Nil
  then show ?case by simp
next
  case (Cons e evs)
  from Cons.prems(2) have q: "\<And>v. e = Change v \<Longrightarrow> pending g \<noteq> QuotePending"
    by auto
  from Cons.prems(2) have r: "noEditWhileQuoting p stored (fire p stored g e) evs"
    by (cases e) auto
  from Cons.IH [OF consistent_fire [OF Cons.prems(1) q] r] show ?case by simp
qed

text \<open>
  Apart from an edit of the amount while a quote request is pending, the modal keeps
  the executed amount equal to the quoted one: along every run of events without such
  an edit, each execute request carries the amount of the latest quote request.
\<close>

lemma executed_as_quoted_without_edit:
  "noEditWhileQuoting p stored initialPage evs \<Longrightarrow>
   executesAsQuoted None (effects (run p stored evs))"
  using consistent_run [OF consistent_initial, of p stored evs]
  by (simp add: run_def consistent_def)

text \<open>
  The plain flow (enter \<^verbatim>\<open>1\<close>, get the quote, execute) has no such edit and
  executes what was quoted; the events of C10 have one.
\<close>

lemma executed_as_quoted_example:
  "noEditWhileQuoting (exampleProps (Finite 10)) (Some ''token'') initialPage quoteThenExecute \<and>
   quotedAmounts (effects (run (exampleProps (Finite 10)) (Some ''token'') quoteThenExecute)) =
     [Finite 1000000000] \<and>
   executedAmounts (effects (run (exampleProps (Finite 10)) (Some ''token'') quoteThenExecute)) =
     [Finite 1000000000] \<and>
   \<not> noEditWhileQuoting (exampleProps (Finite 10)) (Some ''token'') initialPage editWhileQuoting"
  by (simp add: run_def quoteThenExecute_def editWhileQuoting_def initialPage_def initialState_def
      exampleProps_def handleGetQuote_begin_def handleGetQuote_resume_def
      handleExecuteBridge_begin_def parseFloat_examples toLamports_examples num_less_eq_def
      num_greater_def getBridgeQuote_def executeBridge_def accessTokenOf_def)

section \<open>The ledger's constraints\<close>

text \<open>
  C1, as amended. The schema enforces uniqueness of \<^verbatim>\<open>id\<close>, not of
  \<^verbatim>\<open>deposit_address\<close>. On a table that satisfies the constraints, an insert is
  rejected exactly when the row's \<^verbatim>\<open>id\<close> is already present (the primary key) or
  its \<^verbatim>\<open>user_id\<close> is not a user (the foreign key); whether it is accepted does not
  depend on the row's \<^verbatim>\<open>deposit_address\<close>. Every two distinct rows of an accepted
  table differ in \<^verbatim>\<open>id\<close>.
\<close>

theorem insert_checks_primary_key_only:
  assumes "violation users tbl = None"
  shows
    "insert_bridge_transactions users tbl r =
       (if col_id r \<in> col_id ` set tbl then Inl (UniqueViolation ''bridge_transactions_pkey'')
        else if col_user_id r \<notin> set users then
          Inl (ForeignKeyViolation ''bridge_transactions_user_id_fkey'')
        else Inr (tbl @ [r])) \<and>
     isl (insert_bridge_transactions users tbl (r\<lparr>col_deposit_address := d\<rparr>)) =
       isl (insert_bridge_transactions users tbl r) \<and>
     (insert_bridge_transactions users tbl r = Inr tbl' \<longrightarrow>
        violation users tbl' = None \<and> distinct (map col_id tbl') \<and>
        (\<forall>i j. i < length tbl' \<and> j < length tbl' \<and> i \<noteq> j \<longrightarrow>
           col_id (tbl' ! i) \<noteq> col_id (tbl' ! j)))"
proof -
  have a: "insert_bridge_transactions users tbl x =
       (if col_id x \<in> col_id ` set tbl then Inl (UniqueViolation ''bridge_transactions_pkey'')
        else if col_user_id x \<notin> set users then
          Inl (ForeignKeyViolation ''bridge_transactions_user_id_fkey'')
        else Inr (tbl @ [x]))" for x
    by (simp add: insert_bridge_transactions_def violation_append [OF assms])
  have b: "isl (insert_bridge_transactions users tbl (r\<lparr>col_deposit_address := d\<rparr>)) =
       isl (insert_bridge_transactions users tbl r)"
    by (simp add: a)
  have c: "violation users tbl' = None \<and> distinct (map col_id tbl') \<and>
        (\<forall>i j. i < length tbl' \<and> j < length tbl' \<and> i \<noteq> j \<longrightarrow>
           col_id (tbl' ! i) \<noteq> col_id (tbl' ! j))"
    if ins: "insert_bridge_transactions users tbl r = Inr tbl'"
  proof -
    from ins have ok: "violation users tbl' = None"
      by (auto simp: insert_bridge_transactions_def split: option.splits)
    then have d: "distinct (map col_id tbl')"
      by (auto simp: violation_def split: if_splits)
    have "col_id (tbl' ! i) \<noteq> col_id (tbl' ! j)"
      if "i < length tbl'" "j < length tbl'" "i \<noteq> j" for i j
      using d that nth_eq_iff_index_eq [of "map col_id tbl'" i j] by simp
    with ok d show ?thesis by blast
  qed
  from a b c show ?thesis by blast
qed

theorem insert_checks_primary_key_only_witness:
  "insert_bridge_transactions [''user-1''] [exampleRow ''id-1'' 100] (exampleRow ''id-2'' 200) =
     Inr [exampleRow ''id-1'' 100, exampleRow ''id-2'' 200] \<and>
   insert_bridge_transactions [''user-1''] [exampleRow ''id-1'' 100] (exampleRow ''id-1'' 200) =
     Inl (UniqueViolation ''bridge_transactions_pkey'') \<and>
   distinct (map col_id [exampleRow ''id-1'' 100, exampleRow ''id-2'' 200])"
proof -
  have h: "violation [''user-1''] [exampleRow ''id-1'' 100] = None"
    by (simp add: violation_def exampleRow_def row_with_defaults_def)
  have i: "insert_bridge_transactions [''user-1''] [exampleRow ''id-1'' 100] (exampleRow ''id-2'' 200) =
     Inr [exampleRow ''id-1'' 100, exampleRow ''id-2'' 200]"
    using insert_checks_primary_key_only [OF h, of "exampleRow ''id-2'' 200"]
    by (simp add: exampleRow_def row_with_defaults_def)
  from insert_checks_primary_key_only [OF h, of "exampleRow ''id-2'' 200" _
      "[exampleRow ''id-1'' 100, exampleRow ''id-2'' 200]"] i
  have "distinct (map col_id [exampleRow ''id-1'' 100, exampleRow ''id-2'' 200])" by blast
  moreover have "insert_bridge_transactions [''user-1''] [exampleRow ''id-1'' 100]
      (exampleRow ''id-1'' 200) = Inl (UniqueViolation ''bridge_transactions_pkey'')"
    using insert_checks_primary_key_only [OF h, of "exampleRow ''id-1'' 200"]
    by (simp add: exampleRow_def row_with_defaults_def)
  ultimately show ?thesis using i by simp
qed

text \<open>
  C1 as first stated fails: two inserts with different ids and the same deposit
  address \<^verbatim>\<open>D1\<close> are both accepted, and the table then holds two distinct rows with
  equal \<^verbatim>\<open>deposit_address\<close>.
\<close>

theorem shared_deposit_address_counterexample:
  "insert_bridge_transactions [''user-1''] [] (exampleRow ''id-1'' 100) =
     Inr [exampleRow ''id-1'' 100] \<and>
   insert_bridge_transactions [''user-1''] [exampleRow ''id-1'' 100] (exampleRow ''id-2'' 200) =
     Inr [exampleRow ''id-1'' 100, exampleRow ''id-2'' 200] \<and>
   exampleRow ''id-1'' 100 \<noteq> exampleRow ''id-2'' 200 \<and>
   col_deposit_address (exampleRow ''id-1'' 100) = col_deposit_address (exampleRow ''id-2'' 200)"
  by (simp add: insert_bridge_transactions_def violation_def exampleRow_def
      row_with_defaults_def)

text \<open>
  C8, as amended. An \<^verbatim>\<open>UPDATE\<close> of \<^verbatim>\<open>bridge_transactions\<close> that succeeds keeps the
  number of rows; every row its \<^verbatim>\<open>WHERE\<close> selects is stored as its \<^verbatim>\<open>SET\<close> computes it
  but with \<^verbatim>\<open>updated_at\<close> equal to \<^verbatim>\<open>NOW()\<close>, the start time of the transaction the
  update runs in, whatever the \<^verbatim>\<open>SET\<close> assigned to that column; every other row is
  untouched. So a row that differs after the update carries that time as its
  \<^verbatim>\<open>updated_at\<close>. That this is a new or a later value than the stored one is not
  part of the statement.
\<close>

theorem update_sets_updated_at:
  assumes "update_bridge_transactions now users where_clause set_clause tbl = Inr tbl'"
  shows
    "length tbl' = length tbl \<and>
     (\<forall>i. i < length tbl \<longrightarrow>
        (where_clause (tbl ! i) \<longrightarrow>
           tbl' ! i = (set_clause (tbl ! i))\<lparr>col_updated_at := now\<rparr> \<and>
           col_updated_at (tbl' ! i) = now) \<and>
        (\<not> where_clause (tbl ! i) \<longrightarrow> tbl' ! i = tbl ! i) \<and>
        (tbl' ! i \<noteq> tbl ! i \<longrightarrow> col_updated_at (tbl' ! i) = now))"
proof -
  from assms have t: "tbl' = map (\<lambda>old. if where_clause old
      then update_updated_at_column now (set_clause old) else old) tbl"
    by (auto simp: update_bridge_transactions_def Let_def split: option.splits)
  then show ?thesis by (simp add: update_updated_at_column_def)
qed

theorem update_sets_updated_at_witness:
  "\<exists>tbl'. update_bridge_transactions 200 [''user-1''] (atDepositAddress ''D1'') depositObserved
       [exampleRow ''id-1'' 100] = Inr tbl' \<and>
     col_status (tbl' ! 0) = ''PROCESSING'' \<and> col_updated_at (tbl' ! 0) = 200 \<and>
     col_updated_at (exampleRow ''id-1'' 100) = 100"
proof -
  have u: "update_bridge_transactions 200 [''user-1''] (atDepositAddress ''D1'') depositObserved
       [exampleRow ''id-1'' 100] =
     Inr [(depositObserved (exampleRow ''id-1'' 100))\<lparr>col_updated_at := 200\<rparr>]"
    by (simp add: update_bridge_transactions_def violation_def atDepositAddress_def
        depositObserved_def exampleRow_def row_with_defaults_def update_updated_at_column_def)
  have w: "atDepositAddress ''D1'' ([exampleRow ''id-1'' 100] ! 0)"
    by (simp add: atDepositAddress_def exampleRow_def row_with_defaults_def)
  from update_sets_updated_at [OF u] w
  have "col_updated_at ([(depositObserved (exampleRow ''id-1'' 100))\<lparr>col_updated_at := 200\<rparr>] ! 0)
      = 200"
    by simp
  with u show ?thesis
    by (simp add: depositObserved_def exampleRow_def row_with_defaults_def)
qed

text \<open>
  C8 as first stated fails when the update runs in the transaction that stored the
  row's \<^verbatim>\<open>updated_at\<close>. The row is inserted at \<^verbatim>\<open>NOW() = 100\<close> and updated in the same
  transaction, so again at \<^verbatim>\<open>NOW() = 100\<close>: the update changes the row from
  \<^verbatim>\<open>PENDING\<close> to \<^verbatim>\<open>PROCESSING\<close> and its \<^verbatim>\<open>updated_at\<close> stays 100.
\<close>

theorem same_transaction_update_counterexample:
  "insert_bridge_transactions [''user-1''] [] (exampleRow ''id-1'' 100) =
     Inr [exampleRow ''id-1'' 100] \<and>
   update_bridge_transactions 100 [''user-1''] (atDepositAddress ''D1'') depositObserved
     [exampleRow ''id-1'' 100] =
     Inr [(depositObserved (exampleRow ''id-1'' 100))\<lparr>col_updated_at := 100\<rparr>] \<and>
   col_status ((depositObserved (exampleRow ''id-1'' 100))\<lparr>col_updated_at := 100\<rparr>) =
     ''PROCESSING'' \<and>
   col_status (exampleRow ''id-1'' 100) = ''PENDING'' \<and>
   col_updated_at ((depositObserved (exampleRow ''id-1'' 100))\<lparr>col_updated_at := 100\<rparr>) =
     col_updated_at (exampleRow ''id-1'' 100)"
  by (simp add: insert_bridge_transactions_def update_bridge_transactions_def violation_def
      atDepositAddress_def depositObserved_def exampleRow_def row_with_defaults_def
      update_updated_at_column_def)

end
